theory Spec2Isabelle
  imports Main
begin

section \<open>JavaScript values and the primitives of the runtime\<close>

text \<open>
  The program is TypeScript: its types are erased at run time, and \<^verbatim>\<open>JSON.parse(eventData) as
  SSEEventData\<close> checks nothing. A payload is therefore any JSON value, and the fields of the
  stream state hold whatever value the payload carried.

  Text is modelled as \<^typ>\<open>string\<close>: a \<^typ>\<open>char\<close> stands for one code unit of the JavaScript
  string (the model covers code units below 256).

  Numbers are left abstract (the type variable \<open>'n\<close>): the program only stores them, tests
  them for truthiness and renders them as text, and these primitives of the runtime are
  parameters of the model, as is \<^verbatim>\<open>JSON.parse\<close> itself.
\<close>

datatype 'n json =
    JNull
  | JBool bool
  | JNum 'n
  | JStr string
  | JArr "'n json list"
  | JObj "(string \<times> 'n json) list"

text \<open>
  A thrown value. For an instance of \<^verbatim>\<open>Error\<close> the fields are its \<^verbatim>\<open>name\<close> and \<^verbatim>\<open>message\<close>;
  for any other thrown value \<open>message\<close> holds its rendering \<^verbatim>\<open>String(error)\<close>.
\<close>

datatype fault = Fault (instanceofError: bool) (name: string) (message: string)

definition TypeError :: "string \<Rightarrow> fault" where
  "TypeError m = Fault True ''TypeError'' m"

definition new_Error :: "string \<Rightarrow> fault" where
  "new_Error m = Fault True ''Error'' m"

record 'n runtime =
  JSON_parse :: "string \<Rightarrow> 'n json option"   \<comment> \<open>\<open>None\<close>: \<^verbatim>\<open>JSON.parse\<close> throws a SyntaxError\<close>
  Number_toString :: "'n \<Rightarrow> string"
  Number_truthy :: "'n \<Rightarrow> bool"            \<comment> \<open>false for \<open>0\<close>, \<open>-0\<close> and \<open>NaN\<close>\<close>

text \<open>
  Reading a property (\<^verbatim>\<open>event.data\<close>): \<open>None\<close> is \<^verbatim>\<open>undefined\<close>. Reading from \<^verbatim>\<open>null\<close> throws.
  \<open>JObj\<close> lists the own properties of a parsed object; the property names this program reads
  (\<^verbatim>\<open>data\<close>, \<^verbatim>\<open>costUsd\<close>, \<^verbatim>\<open>error\<close>, \<^verbatim>\<open>message\<close>, \<^verbatim>\<open>task_id\<close>) are defined on no prototype.
\<close>

fun getProp :: "'n json \<Rightarrow> string \<Rightarrow> fault + 'n json option" where
  "getProp JNull k =
     Inl (TypeError (''Cannot read properties of null (reading '' @ [CHR 0x27] @ k @ [CHR 0x27] @ '')''))"
| "getProp (JObj fs) k = Inr (map_of fs k)"
| "getProp (JBool b) k = Inr None"
| "getProp (JNum n) k = Inr None"
| "getProp (JStr s) k = Inr None"
| "getProp (JArr xs) k = Inr None"

fun truthy :: "'n runtime \<Rightarrow> 'n json \<Rightarrow> bool" where
  "truthy rt JNull = False"
| "truthy rt (JBool b) = b"
| "truthy rt (JNum n) = Number_truthy rt n"
| "truthy rt (JStr s) = (s \<noteq> [])"
| "truthy rt (JArr xs) = True"
| "truthy rt (JObj fs) = True"

text \<open>\<^verbatim>\<open>x || d\<close> for a possibly undefined \<open>x\<close>.\<close>

fun or_else :: "'n runtime \<Rightarrow> 'n json option \<Rightarrow> 'n json \<Rightarrow> 'n json" where
  "or_else rt None d = d"
| "or_else rt (Some v) d = (if truthy rt v then v else d)"

fun typeof_object :: "'n json \<Rightarrow> bool" where
  "typeof_object JNull = True"
| "typeof_object (JArr xs) = True"
| "typeof_object (JObj fs) = True"
| "typeof_object (JBool b) = False"
| "typeof_object (JNum n) = False"
| "typeof_object (JStr s) = False"

text \<open>
  Conversion to text, as string concatenation and template literals do it. An array is
  joined with commas, \<^verbatim>\<open>null\<close> elements giving the empty text. A parsed object has no callable
  property, so one with an own property \<^verbatim>\<open>toString\<close> cannot be converted (a TypeError), and
  any other gives \<^verbatim>\<open>[object Object]\<close>.
\<close>

fun ToString :: "'n runtime \<Rightarrow> 'n json \<Rightarrow> fault + string"
  and join_elements :: "'n runtime \<Rightarrow> 'n json list \<Rightarrow> fault + string"
  and element_text :: "'n runtime \<Rightarrow> 'n json \<Rightarrow> fault + string"
where
  "ToString rt JNull = Inr ''null''"
| "ToString rt (JBool b) = Inr (if b then ''true'' else ''false'')"
| "ToString rt (JNum n) = Inr (Number_toString rt n)"
| "ToString rt (JStr s) = Inr s"
| "ToString rt (JArr xs) = join_elements rt xs"
| "ToString rt (JObj fs) =
     (if ''toString'' \<in> set (map fst fs)
      then Inl (TypeError ''Cannot convert object to primitive value'')
      else Inr ''[object Object]'')"
| "join_elements rt [] = Inr []"
| "join_elements rt (x # xs) =
     (case element_text rt x of
        Inl f \<Rightarrow> Inl f
      | Inr s \<Rightarrow>
          if xs = [] then Inr s
          else (case join_elements rt xs of Inl f \<Rightarrow> Inl f | Inr t \<Rightarrow> Inr (s @ '','' @ t)))"
| "element_text rt JNull = Inr []"
| "element_text rt (JBool b) = ToString rt (JBool b)"
| "element_text rt (JNum n) = ToString rt (JNum n)"
| "element_text rt (JStr s) = ToString rt (JStr s)"
| "element_text rt (JArr xs) = join_elements rt xs"
| "element_text rt (JObj fs) = ToString rt (JObj fs)"

section \<open>Strings\<close>

text \<open>White space as \<^verbatim>\<open>trim()\<close> and the regular expression class \<^verbatim>\<open>\s\<close> see it.\<close>

definition is_space :: "char \<Rightarrow> bool" where
  "is_space c \<longleftrightarrow> c \<in> set [CHR 0x09, CHR 0x0A, CHR 0x0B, CHR 0x0C, CHR 0x0D, CHR 0x20, CHR 0xA0]"

definition trim :: "string \<Rightarrow> string" where
  "trim s = rev (dropWhile is_space (rev (dropWhile is_space s)))"

definition startsWith :: "string \<Rightarrow> string \<Rightarrow> bool" where
  "startsWith s p \<longleftrightarrow> take (length p) s = p"

definition substring :: "nat \<Rightarrow> string \<Rightarrow> string" where
  "substring n s = drop n s"

fun includes_str :: "string \<Rightarrow> string \<Rightarrow> bool" where
  "includes_str [] p = (p = [])"
| "includes_str (c # cs) p = (startsWith (c # cs) p \<or> includes_str cs p)"

text \<open>\<^verbatim>\<open>s.split(sep)\<close> for a separator of one character: never the empty list.\<close>

fun split_on :: "char \<Rightarrow> string \<Rightarrow> string list" where
  "split_on sep [] = [[]]"
| "split_on sep (c # cs) =
     (if c = sep then [] # split_on sep cs
      else (case split_on sep cs of [] \<Rightarrow> [[c]] | l # ls \<Rightarrow> (c # l) # ls))"

text \<open>\<^verbatim>\<open>lines.pop()\<close>: the last element (\<^verbatim>\<open>undefined\<close> for an empty array) and the array left.\<close>

definition pop :: "'a list \<Rightarrow> 'a option \<times> 'a list" where
  "pop xs = (if xs = [] then (None, []) else (Some (last xs), butlast xs))"

section \<open>The stream state and one event (\<^verbatim>\<open>processSSEEvent\<close>)\<close>

record 'n StreamState =
  outputBuffer :: string
  status :: string
  error :: "'n json"            \<comment> \<open>\<open>JNull\<close> is \<^verbatim>\<open>null\<close>\<close>
  costUsd :: "'n json option"   \<comment> \<open>\<open>None\<close> is \<^verbatim>\<open>undefined\<close>\<close>

text \<open>The calls into \<^verbatim>\<open>@actions/core\<close>, in the order they are made.\<close>

datatype 'n core_call =
    Info string
  | Debug string
  | Warning string
  | Error string
  | SetOutput string "'n json"
  | SetFailed string

text \<open>
  A step returns the state as it stands when the step ends, the calls it made, and the
  fault it threw, if any: a fault thrown after an assignment leaves the assignment in place.
\<close>

type_synonym 'n step = "'n StreamState \<times> 'n core_call list \<times> fault option"

definition processSSEEvent ::
  "'n runtime \<Rightarrow> string \<Rightarrow> string \<Rightarrow> 'n StreamState \<Rightarrow> 'n step" where
  "processSSEEvent rt eventType eventData state =
     (case JSON_parse rt eventData of
        None \<Rightarrow> (state, [Debug (''Failed to parse SSE data: '' @ eventData)], None)
      | Some event \<Rightarrow>
          if eventType = ''start'' then
            (state, [Info ''[Stream] Task execution started''], None)
          else if eventType = ''stdout'' then
            (case getProp event ''data'' of
               Inl f \<Rightarrow> (state, [], Some f)
             | Inr None \<Rightarrow> (state, [], None)
             | Inr (Some d) \<Rightarrow>
                 if truthy rt d then
                   (case ToString rt d of
                      Inl f \<Rightarrow> (state, [], Some f)
                    | Inr s \<Rightarrow> (state\<lparr>outputBuffer := outputBuffer state @ s\<rparr>, [Info s], None))
                 else (state, [], None))
          else if eventType = ''stderr'' then
            (case getProp event ''data'' of
               Inl f \<Rightarrow> (state, [], Some f)
             | Inr None \<Rightarrow> (state, [], None)
             | Inr (Some d) \<Rightarrow>
                 if truthy rt d then
                   (case ToString rt d of
                      Inl f \<Rightarrow> (state, [], Some f)
                    | Inr s \<Rightarrow> (state, [Warning (''[stderr] '' @ s)], None))
                 else (state, [], None))
          else if eventType = ''complete'' then
            (let state1 = state\<lparr>status := ''completed''\<rparr>;
                 out = [Info ''[Stream] Task completed'']
             in case getProp event ''costUsd'' of
                  Inl f \<Rightarrow> (state1, out, Some f)
                | Inr None \<Rightarrow> (state1, out, None)
                | Inr (Some c) \<Rightarrow> (state1\<lparr>costUsd := Some c\<rparr>, out, None))
          else if eventType = ''error'' then
            (let state1 = state\<lparr>status := ''failed''\<rparr>
             in case getProp event ''error'' of
                  Inl f \<Rightarrow> (state1, [], Some f)
                | Inr e \<Rightarrow>
                    (let state2 = state1\<lparr>error := or_else rt e (JStr ''Unknown error'')\<rparr>
                     in case ToString rt (error state2) of
                          Inl f \<Rightarrow> (state2, [], Some f)
                        | Inr s \<Rightarrow> (state2, [Error (''[Stream] Task failed: '' @ s)], None)))
          else (state, [Debug (''Unknown event type: '' @ eventType)], None))"

section \<open>Framing and decoding (\<^verbatim>\<open>parseSSELines\<close>)\<close>

text \<open>The \<^verbatim>\<open>for\<close> loop over the complete lines; \<open>eventType\<close> is the loop's local variable.\<close>

fun for_lines ::
  "'n runtime \<Rightarrow> string list \<Rightarrow> string \<Rightarrow> 'n StreamState \<Rightarrow> 'n step" where
  "for_lines rt [] eventType state = (state, [], None)"
| "for_lines rt (line # lines) eventType state =
     (if startsWith line ''event: '' then
        for_lines rt lines (trim (substring 7 line)) state
      else if startsWith line ''data: '' then
        (case processSSEEvent rt eventType (substring 6 line) state of
           (state', out, Some f) \<Rightarrow> (state', out, Some f)
         | (state', out, None) \<Rightarrow>
             (case for_lines rt lines [] state' of
                (state'', out', r) \<Rightarrow> (state'', out @ out', r)))
      else for_lines rt lines eventType state)"

text \<open>The result: the state, the calls made, and the remainder returned or the fault thrown.\<close>

definition parseSSELines ::
  "'n runtime \<Rightarrow> string \<Rightarrow> 'n StreamState \<Rightarrow> 'n StreamState \<times> 'n core_call list \<times> (fault + string)" where
  "parseSSELines rt buffer state =
     (case pop (split_on CHR 0x0A buffer) of
        (popped, lines) \<Rightarrow>
          (let remainder = (case popped of None \<Rightarrow> [] | Some r \<Rightarrow> if r = [] then [] else r)
           in case for_lines rt lines [] state of
                (state', out, Some f) \<Rightarrow> (state', out, Inl f)
              | (state', out, None) \<Rightarrow> (state', out, Inr remainder)))"

section \<open>The stream orchestrator (\<^verbatim>\<open>streamTaskOutput\<close>)\<close>

text \<open>
  What the transport delivers is the environment's choice, so it is data of the model: an
  awaited promise either resolves or rejects, and the body of a response is the list of the
  outcomes of \<^verbatim>\<open>reader.read()\<close>, each a chunk (as the streaming text decoder renders it) or a
  rejection; the end of the list is \<^verbatim>\<open>done\<close>. The abort of the timer reaches the program as a
  rejection whose fault is an \<^verbatim>\<open>Error\<close> named \<^verbatim>\<open>AbortError\<close>.
\<close>

datatype 'a promise = Resolved 'a | Rejected fault

datatype read_result = Chunk string | ReadRejected fault

record 'n response =
  ok :: bool
  response_status :: 'n
  body_text :: "string promise"                 \<comment> \<open>\<^verbatim>\<open>response.text()\<close>\<close>
  content_type :: "string option"               \<comment> \<open>\<^verbatim>\<open>response.headers.get('content-type')\<close>\<close>
  body_json :: "'n json promise"                \<comment> \<open>\<^verbatim>\<open>response.json()\<close>, which reads the body\<close>
  body :: "read_result list option"             \<comment> \<open>\<^verbatim>\<open>response.body\<close>, \<open>None\<close> when it is \<^verbatim>\<open>null\<close>\<close>

type_synonym 'n fetch = "string \<Rightarrow> (string \<times> string) list \<Rightarrow> 'n response promise"

record 'n StreamResult =
  result_status :: string
  result_output :: "string option"
  result_costUsd :: "'n json option"
  result_error :: "'n json"

text \<open>The \<^verbatim>\<open>while (true)\<close> loop over the reads.\<close>

fun read_loop ::
  "'n runtime \<Rightarrow> read_result list \<Rightarrow> string \<Rightarrow> 'n StreamState \<Rightarrow> 'n step" where
  "read_loop rt [] buffer state = (state, [], None)"
| "read_loop rt (ReadRejected f # reads) buffer state = (state, [], Some f)"
| "read_loop rt (Chunk v # reads) buffer state =
     (case parseSSELines rt (buffer @ v) state of
        (state', out, Inl f) \<Rightarrow> (state', out, Some f)
      | (state', out, Inr remainder) \<Rightarrow>
          if status state' = ''completed'' \<or> status state' = ''failed'' then (state', out, None)
          else (case read_loop rt reads remainder state' of
                  (state'', out', r) \<Rightarrow> (state'', out @ out', r)))"

definition initial_state :: "'n StreamState" where
  "initial_state = \<lparr>outputBuffer = [], status = ''unknown'', error = JNull, costUsd = None\<rparr>"

type_synonym 'n outcome = "(fault + 'n StreamResult) \<times> 'n core_call list"

text \<open>From \<^verbatim>\<open>getReader()\<close> to the \<^verbatim>\<open>return\<close> after the loop.\<close>

definition read_body :: "'n runtime \<Rightarrow> 'n response \<Rightarrow> 'n outcome" where
  "read_body rt response =
     (case body response of
        None \<Rightarrow>
          (Inl (TypeError (''Cannot read properties of null (reading '' @ [CHR 0x27] @ ''getReader'' @ [CHR 0x27] @ '')'')), [])
      | Some reads \<Rightarrow>
          (case read_loop rt reads [] initial_state of
             (state, out, Some f) \<Rightarrow> (Inl f, out)
           | (state, out, None) \<Rightarrow>
               (Inr \<lparr>result_status = status state,
                     result_output = (if outputBuffer state = [] then None else Some (outputBuffer state)),
                     result_costUsd = costUsd state,
                     result_error = error state\<rparr>, out)))"

text \<open>
  The body of the \<^verbatim>\<open>try\<close> block. Once \<^verbatim>\<open>response.json()\<close> has read the body, the stream of
  the body is locked, so when the JSON response carries no truthy \<^verbatim>\<open>error\<close> the call of
  \<^verbatim>\<open>getReader()\<close> that follows throws.
\<close>

definition locked_body :: fault where
  "locked_body = TypeError ''Invalid state: ReadableStream is locked''"

definition streamTaskOutput_try ::
  "'n runtime \<Rightarrow> 'n fetch \<Rightarrow> string \<Rightarrow> string \<Rightarrow> 'n outcome" where
  "streamTaskOutput_try rt fetch url apiKey =
     (case fetch url [(''Authorization'', ''Bearer '' @ apiKey), (''Accept'', ''text/event-stream'')] of
        Rejected f \<Rightarrow> (Inl f, [])
      | Resolved response \<Rightarrow>
          if \<not> ok response then
            (case body_text response of
               Rejected f \<Rightarrow> (Inl f, [])
             | Resolved errorText \<Rightarrow>
                 (Inl (new_Error (''SSE connection failed ('' @ Number_toString rt (response_status response)
                                   @ ''): '' @ errorText)), []))
          else
            (let contentType = (case content_type response of None \<Rightarrow> [] | Some c \<Rightarrow> if c = [] then [] else c)
             in if includes_str contentType ''application/json'' then
                  (case body_json response of
                     Rejected f \<Rightarrow> (Inl f, [])
                   | Resolved jsonResponse \<Rightarrow>
                       (case getProp jsonResponse ''error'' of
                          Inl f \<Rightarrow> (Inl f, [])
                        | Inr None \<Rightarrow> (Inl locked_body, [])
                        | Inr (Some e) \<Rightarrow>
                            if truthy rt e then
                              (case (if typeof_object e then getProp e ''message'' else Inr (Some e)) of
                                 Inl f \<Rightarrow> (Inl f, [])
                               | Inr errorMsg \<Rightarrow>
                                   (Inr \<lparr>result_status = ''failed'', result_output = None, result_costUsd = None,
                                         result_error = or_else rt errorMsg (JStr ''Unknown error'')\<rparr>, []))
                            else (Inl locked_body, [])))
                else read_body rt response))"

text \<open>The whole function: the \<^verbatim>\<open>try\<close> block under its \<^verbatim>\<open>catch\<close> handler.\<close>

definition streamTaskOutput ::
  "'n runtime \<Rightarrow> 'n fetch \<Rightarrow> string \<Rightarrow> string \<Rightarrow> 'n \<Rightarrow> 'n outcome" where
  "streamTaskOutput rt fetch url apiKey timeoutMs =
     (case streamTaskOutput_try rt fetch url apiKey of
        (Inr result, out) \<Rightarrow> (Inr result, out)
      | (Inl err, out) \<Rightarrow>
          if instanceofError err \<and> name err = ''AbortError'' then
            (Inr \<lparr>result_status = ''timeout'', result_output = None, result_costUsd = None,
                  result_error = JStr (''Task execution exceeded timeout ('' @ Number_toString rt timeoutMs @ ''ms)'')\<rparr>,
             out)
          else (Inl err, out))"

section \<open>The error sanitizer\<close>

text \<open>
  \<^verbatim>\<open>message.replace(/Bearer\s+[^\s]+/gi, 'Bearer ***')\<close>. Without the \<^verbatim>\<open>u\<close> flag a letter of the
  pattern matches its two cases and nothing else. The two repetitions range over
  complementary classes, so the match at a position, when there is one, is the word, the
  whole run of white space after it and the whole run of other characters after that.
\<close>

definition is_bearer_word :: "string \<Rightarrow> bool" where
  "is_bearer_word w \<longleftrightarrow>
     (case w of
        [b, e, a, r, e', r'] \<Rightarrow>
          (b = CHR ''B'' \<or> b = CHR ''b'') \<and> (e = CHR ''E'' \<or> e = CHR ''e'') \<and>
          (a = CHR ''A'' \<or> a = CHR ''a'') \<and> (r = CHR ''R'' \<or> r = CHR ''r'') \<and>
          (e' = CHR ''E'' \<or> e' = CHR ''e'') \<and> (r' = CHR ''R'' \<or> r' = CHR ''r'')
      | _ \<Rightarrow> False)"

text \<open>The length of the match that starts at the head of \<open>s\<close>, if there is one.\<close>

definition match_bearer :: "string \<Rightarrow> nat option" where
  "match_bearer s =
     (let spaces = takeWhile is_space (drop 6 s);
          token = takeWhile (\<lambda>c. \<not> is_space c) (dropWhile is_space (drop 6 s))
      in if is_bearer_word (take 6 s) \<and> spaces \<noteq> [] \<and> token \<noteq> []
         then Some (6 + length spaces + length token) else None)"

text \<open>The global replacement: left to right, resuming after each match.\<close>

function sanitize :: "string \<Rightarrow> string" where
  "sanitize [] = []"
| "sanitize (c # cs) =
     (case match_bearer (c # cs) of
        Some n \<Rightarrow> ''Bearer ***'' @ sanitize (drop n (c # cs))
      | None \<Rightarrow> c # sanitize cs)"
  by pat_completeness auto
termination
  by (relation "measure length") (auto simp: match_bearer_def Let_def split: if_splits)

section \<open>The action (\<^verbatim>\<open>run\<close>)\<close>

text \<open>Decimal digits: how a status code (a small non-negative integer) is rendered.\<close>

function decimal :: "nat \<Rightarrow> string" where
  "decimal n = (if n < 10 then [''0123456789'' ! n] else decimal (n div 10) @ [''0123456789'' ! (n mod 10)])"
  by pat_completeness auto
termination
  by (relation "measure id") auto

record 'n submission =
  submission_type :: string
  prompt :: string
  repository :: string
  repo_url :: "string option"
  github_token :: string
  timeout_seconds :: 'n

record 'n submit_response =
  statusCode :: nat
  result :: "'n json"          \<comment> \<open>the parsed body, \<open>JNull\<close> when there is none\<close>

text \<open>
  The surroundings of \<^verbatim>\<open>run\<close>: the inputs of the action, the process environment, the
  primitives of the runtime that only \<^verbatim>\<open>run\<close> uses, the HTTP client, the transport of the
  stream, and the time that passed between the two readings of the clock.
\<close>

record 'n run_env =
  getInput :: "string \<Rightarrow> string"        \<comment> \<open>the raw value of an input, empty when it is not set\<close>
  GITHUB_REPOSITORY :: "string option"
  GITHUB_TOKEN :: "string option"
  parseInt10 :: "string \<Rightarrow> 'n"
  times1000 :: "'n \<Rightarrow> 'n"
  JSON_stringify :: "'n submission \<Rightarrow> string"
  postJson :: "(string \<times> string) list \<Rightarrow> string \<Rightarrow> 'n submission \<Rightarrow> 'n submit_response promise"
  fetch :: "'n fetch"
  duration :: 'n

text \<open>
  \<^verbatim>\<open>core.getInput\<close>: the raw value of the input (empty when it is not set) is tested, a
  required input that is empty is a thrown \<^verbatim>\<open>Error\<close>, and the value is returned trimmed.
\<close>

definition core_getInput :: "'n run_env \<Rightarrow> string \<Rightarrow> bool \<Rightarrow> fault + string" where
  "core_getInput env key required =
     (if required \<and> getInput env key = []
      then Inl (new_Error (''Input required and not supplied: '' @ key))
      else Inr (trim (getInput env key)))"

text \<open>\<^verbatim>\<open>value.toString()\<close>: the method call, which \<^verbatim>\<open>null\<close> does not have.\<close>

definition call_toString :: "'n runtime \<Rightarrow> 'n json \<Rightarrow> fault + string" where
  "call_toString rt v =
     (case v of
        JNull \<Rightarrow> Inl (TypeError (''Cannot read properties of null (reading '' @ [CHR 0x27] @ ''toString'' @ [CHR 0x27] @ '')''))
      | JObj fs \<Rightarrow>
          if ''toString'' \<in> set (map fst fs)
          then Inl (TypeError ''streamResult.costUsd.toString is not a function'')
          else Inr ''[object Object]''
      | _ \<Rightarrow> ToString rt v)"

text \<open>Lines 109 to 126: what \<^verbatim>\<open>run\<close> does with the result of the stream.\<close>

definition report_result :: "'n runtime \<Rightarrow> 'n run_env \<Rightarrow> 'n StreamResult \<Rightarrow> fault option \<times> 'n core_call list" where
  "report_result rt env streamResult =
     (let out1 = [SetOutput ''result'' (JStr (result_status streamResult)),
                  SetOutput ''duration-ms'' (JStr (Number_toString rt (duration env)))]
                 @ (case result_output streamResult of
                      None \<Rightarrow> []
                    | Some s \<Rightarrow> if s = [] then [] else [SetOutput ''output'' (JStr s)])
      in case (case result_costUsd streamResult of
                 None \<Rightarrow> Inr []
               | Some c \<Rightarrow> (case call_toString rt c of
                              Inl f \<Rightarrow> Inl f
                            | Inr s \<Rightarrow> Inr [SetOutput ''cost-usd'' (JStr s)])) of
           Inl f \<Rightarrow> (Some f, out1)
         | Inr out2 \<Rightarrow>
             if result_status streamResult = ''failed'' then
               (case ToString rt (or_else rt (Some (result_error streamResult)) (JStr ''Unknown error'')) of
                  Inl f \<Rightarrow> (Some f, out1 @ out2)
                | Inr s \<Rightarrow> (None, out1 @ out2 @ [SetFailed (''Task execution failed: '' @ s)]))
             else
               (None, out1 @ out2 @ [Info (''Task completed successfully in '' @ Number_toString rt (duration env) @ ''ms'')]))"

text \<open>Lines 93 to 126: from the accepted submission on.\<close>

definition follow_task ::
  "'n runtime \<Rightarrow> 'n run_env \<Rightarrow> string \<Rightarrow> string \<Rightarrow> 'n \<Rightarrow> 'n json \<Rightarrow> fault option \<times> 'n core_call list" where
  "follow_task rt env apiKey apiUrl timeoutSeconds taskData =
     (case (if taskData = JNull then Inr None else getProp taskData ''task_id'') of
        Inl f \<Rightarrow> (Some f, [])
      | Inr None \<Rightarrow> (Some (new_Error ''Invalid response from API: missing task_id''), [])
      | Inr (Some taskId) \<Rightarrow>
          if \<not> truthy rt taskId then (Some (new_Error ''Invalid response from API: missing task_id''), [])
          else
            (case ToString rt taskId of
               Inl f \<Rightarrow> (Some f, [])
             | Inr taskIdText \<Rightarrow>
                 (let out1 = [Info (''Task submitted successfully. Task ID: '' @ taskIdText),
                              SetOutput ''task-id'' taskId,
                              Info ''Connecting to SSE stream for real-time output...''];
                      streamUrl = apiUrl @ ''/v1/tasks/'' @ taskIdText @ ''/stream''
                  in case streamTaskOutput rt (fetch env) streamUrl apiKey (times1000 env timeoutSeconds) of
                       (Inl f, out) \<Rightarrow> (Some f, out1 @ out)
                     | (Inr streamResult, out) \<Rightarrow>
                         (case report_result rt env streamResult of
                            (r, out2) \<Rightarrow> (r, out1 @ out @ out2)))))"

text \<open>The body of the \<^verbatim>\<open>try\<close> block of \<^verbatim>\<open>run\<close>: the fault thrown, if any, and the calls made.\<close>

definition run_try :: "'n runtime \<Rightarrow> 'n run_env \<Rightarrow> fault option \<times> 'n core_call list" where
  "run_try rt env =
     (case core_getInput env ''api-key'' True of
        Inl f \<Rightarrow> (Some f, [])
      | Inr apiKey \<Rightarrow>
     (case core_getInput env ''prompt'' True of
        Inl f \<Rightarrow> (Some f, [])
      | Inr prompt_text \<Rightarrow>
     (case core_getInput env ''api-url'' False of
        Inl f \<Rightarrow> (Some f, [])
      | Inr url_input \<Rightarrow>
     (case core_getInput env ''timeout'' False of
        Inl f \<Rightarrow> (Some f, [])
      | Inr timeout_input \<Rightarrow>
          (let apiUrl = (if url_input = [] then ''https://api.vibectl.dev'' else url_input);
               timeoutSeconds = parseInt10 env (if timeout_input = [] then ''1800'' else timeout_input);
               headers = [(''Authorization'', ''Bearer '' @ apiKey), (''Content-Type'', ''application/json'')];
               repo = (case GITHUB_REPOSITORY env of None \<Rightarrow> [] | Some r \<Rightarrow> r);
               githubToken = (case GITHUB_TOKEN env of None \<Rightarrow> [] | Some t \<Rightarrow> t);
               taskSubmission =
                 \<lparr>submission_type = ''exec'', prompt = prompt_text, repository = repo,
                  repo_url = (if repo = [] then None else Some (''https://github.com/'' @ repo)),
                  github_token = githubToken, timeout_seconds = timeoutSeconds\<rparr>;
               out1 = [Info (''Submitting task to vibectl API: '' @ apiUrl),
                       Info (''Timeout: '' @ Number_toString rt timeoutSeconds @ ''s (streaming mode)''),
                       Debug (''Task submission payload: '' @ JSON_stringify env taskSubmission)]
           in case postJson env headers (apiUrl @ ''/v1/tasks'') taskSubmission of
                Rejected f \<Rightarrow> (Some f, out1)
              | Resolved submitResponse \<Rightarrow>
                  if statusCode submitResponse < 200 \<or> statusCode submitResponse \<ge> 300 then
                    (let errorBody = (if truthy rt (result submitResponse) then result submitResponse else JObj [])
                     in case getProp errorBody ''error'' of
                          Inl f \<Rightarrow> (Some f, out1)
                        | Inr e \<Rightarrow>
                            (case ToString rt (or_else rt e (JStr ''Unknown error'')) of
                               Inl f \<Rightarrow> (Some f, out1)
                             | Inr s \<Rightarrow>
                                 (Some (new_Error (''Task submission failed ('' @ decimal (statusCode submitResponse)
                                                    @ ''): '' @ s)), out1)))
                  else
                    (case follow_task rt env apiKey apiUrl timeoutSeconds (result submitResponse) of
                       (r, out2) \<Rightarrow> (r, out1 @ out2)))))))"

text \<open>
  \<^verbatim>\<open>run\<close>: the \<^verbatim>\<open>try\<close> block under its \<^verbatim>\<open>catch\<close> handler, which is where the sanitizer is
  applied. The value is the list of the calls into \<^verbatim>\<open>@actions/core\<close>.
\<close>

definition run :: "'n runtime \<Rightarrow> 'n run_env \<Rightarrow> 'n core_call list" where
  "run rt env =
     (case run_try rt env of
        (None, out) \<Rightarrow> out
      | (Some err, out) \<Rightarrow> out @ [SetFailed (sanitize (message err))])"

text \<open>The failure channel: the texts passed to \<^verbatim>\<open>core.setFailed\<close>.\<close>

fun failures :: "'n core_call list \<Rightarrow> string list" where
  "failures [] = []"
| "failures (SetFailed m # cs) = m # failures cs"
| "failures (c # cs) = failures cs"

section \<open>The framing and decoding rules in the words of the specification\<close>

abbreviation newline :: char where
  "newline \<equiv> CHR 0x0A"

text \<open>Complete lines, each closed by a newline, followed by a trailing fragment.\<close>

definition join_lines :: "string list \<Rightarrow> string \<Rightarrow> string" where
  "join_lines lines rest = concat (map (\<lambda>l. l @ [newline]) lines) @ rest"

definition complete_lines :: "string \<Rightarrow> string list" where
  "complete_lines buffer = butlast (split_on newline buffer)"

definition carry_over :: "string \<Rightarrow> string" where
  "carry_over buffer = last (split_on newline buffer)"

text \<open>
  The event decoder of the specification: an \<^verbatim>\<open>event: \<close> line sets the pending type, a
  \<^verbatim>\<open>data: \<close> line pairs the pending type with its payload and clears it, any other line is
  ignored. The value is the sequence of decoded events, type first.
\<close>

fun decode :: "string \<Rightarrow> string list \<Rightarrow> (string \<times> string) list" where
  "decode pending [] = []"
| "decode pending (line # lines) =
     (if startsWith line ''event: '' then decode (trim (drop 7 line)) lines
      else if startsWith line ''data: '' then (pending, drop 6 line) # decode [] lines
      else decode pending lines)"

text \<open>Decoded events folded into the state in order; a fault ends the fold.\<close>

fun dispatch :: "'n runtime \<Rightarrow> (string \<times> string) list \<Rightarrow> 'n StreamState \<Rightarrow> 'n step" where
  "dispatch rt [] state = (state, [], None)"
| "dispatch rt ((eventType, rawData) # events) state =
     (case processSSEEvent rt eventType rawData state of
        (state', out, Some f) \<Rightarrow> (state', out, Some f)
      | (state', out, None) \<Rightarrow>
          (case dispatch rt events state' of
             (state'', out', r) \<Rightarrow> (state'', out @ out', r)))"

definition terminal :: "string \<Rightarrow> bool" where
  "terminal s \<longleftrightarrow> s = ''completed'' \<or> s = ''failed''"


section \<open>A runtime and surroundings for the examples\<close>

text \<open>
  The examples below run the model on concrete texts. Their runtime knows \<^verbatim>\<open>JSON.parse\<close> on
  the payloads that the examples use, as a table: each entry is what \<^verbatim>\<open>JSON.parse\<close> returns for
  that text, and no example uses a text outside the table. Its numbers are the natural numbers,
  rendered in decimal. Every theorem that is not an example holds for all runtimes.
\<close>

definition sample_runtime :: "nat runtime" where
  \<open>sample_runtime =
     \<lparr>JSON_parse = map_of
        [(''{}'', JObj []),
         (''null'', JNull),
         (''{"data":"hello"}'', JObj [(''data'', JStr ''hello'')]),
         (''{"costUsd":1}'', JObj [(''costUsd'', JNum 1)]),
         (''{"costUsd":2}'', JObj [(''costUsd'', JNum 2)]),
         (''{"error":""}'', JObj [(''error'', JStr [])]),
         (''{"error":"task crashed"}'', JObj [(''error'', JStr ''task crashed'')]),
         (''{"error":"rejected Bearer abc123"}'', JObj [(''error'', JStr ''rejected Bearer abc123'')])],
      Number_toString = decimal,
      Number_truthy = (\<lambda>n. n \<noteq> 0)\<rparr>\<close>

text \<open>A transport that answers with an event stream delivered in the given chunks.\<close>

definition sample_fetch :: "string list \<Rightarrow> nat fetch" where
  "sample_fetch chunks = (\<lambda>url headers. Resolved
     \<lparr>ok = True, response_status = 200, body_text = Resolved [],
      content_type = Some ''text/event-stream'',
      body_json = Rejected (Fault True ''SyntaxError'' ''Unexpected token'' ),
      body = Some (map Chunk chunks)\<rparr>)"

text \<open>
  A run with inputs \<^verbatim>\<open>api-key\<close> and \<^verbatim>\<open>prompt\<close> only, an accepted submission, and that
  transport.
\<close>

definition sample_env :: "string list \<Rightarrow> nat run_env" where
  \<open>sample_env chunks =
     \<lparr>getInput = (\<lambda>key. if key = ''api-key'' then ''abc123'' else if key = ''prompt'' then ''review'' else []),
      GITHUB_REPOSITORY = None,
      GITHUB_TOKEN = None,
      parseInt10 = (\<lambda>s. if s = ''1800'' then 1800 else 0),
      times1000 = (\<lambda>n. n * 1000),
      JSON_stringify = (\<lambda>submission.
        ''{"type":"exec","payload":{"prompt":"review","repository":"","github_token":""},"timeout_seconds":1800}''),
      postJson = (\<lambda>headers url submission.
        Resolved \<lparr>statusCode = 200, result = JObj [(''task_id'', JStr ''t1'')]\<rparr>),
      fetch = sample_fetch chunks,
      duration = 5\<rparr>\<close>

section \<open>The invariant of the stream state\<close>

text \<open>A failed stream has recorded an error.\<close>

definition error_recorded :: "'n StreamState \<Rightarrow> bool" where
  "error_recorded state \<longleftrightarrow> (status state = ''failed'' \<longrightarrow> error state \<noteq> JNull)"

section \<open>The pending event type at the end of a call\<close>

text \<open>
  The value of the local variable \<open>eventType\<close> when the \<^verbatim>\<open>for\<close> loop of \<open>parseSSELines\<close> ends:
  what a decoder that carried the pending type across calls would start the next call with.
\<close>

fun pending_after :: "string \<Rightarrow> string list \<Rightarrow> string" where
  "pending_after pending [] = pending"
| "pending_after pending (line # lines) =
     (if startsWith line ''event: '' then pending_after (trim (drop 7 line)) lines
      else if startsWith line ''data: '' then pending_after [] lines
      else pending_after pending lines)"

section \<open>Unfolding the model on concrete inputs\<close>

lemmas eval_defs =
  processSSEEvent_def parseSSELines_def pop_def startsWith_def substring_def trim_def is_space_def
  initial_state_def sample_runtime_def TypeError_def new_Error_def Let_def

section \<open>Framing: lines and carry-over\<close>

lemma split_on_not_Nil: "split_on sep s \<noteq> []"
  by (induction s) (auto split: list.splits)

lemma split_on_no_sep: "sep \<notin> set (concat (split_on sep s))"
  by (induction s) (auto split: list.splits)

lemma split_on_rejoin:
  "concat (map (\<lambda>l. l @ [sep]) (butlast (split_on sep s))) @ last (split_on sep s) = s"
  by (induction s) (auto simp: split_on_not_Nil split: list.splits)

lemma split_on_fragment: "sep \<notin> set rest \<Longrightarrow> split_on sep rest = [rest]"
  by (induction rest) auto

lemma split_on_line: "sep \<notin> set l \<Longrightarrow> split_on sep (l @ sep # s) = l # split_on sep s"
  by (induction l) auto

text \<open>The decomposition of a buffer into complete lines and a fragment is unique.\<close>

lemma split_on_join_lines:
  "newline \<notin> set rest \<Longrightarrow> newline \<notin> set (concat lines) \<Longrightarrow>
   split_on newline (join_lines lines rest) = lines @ [rest]"
  by (induction lines) (auto simp: join_lines_def split_on_fragment split_on_line)

lemma framing_unique:
  assumes "newline \<notin> set rest" and "newline \<notin> set (concat lines)"
  shows "complete_lines (join_lines lines rest) = lines" and "carry_over (join_lines lines rest) = rest"
  using split_on_join_lines[OF assms] by (simp_all add: complete_lines_def carry_over_def)

lemma carry_over_whole:
  "newline \<notin> set buffer \<Longrightarrow> complete_lines buffer = [] \<and> carry_over buffer = buffer"
  by (simp add: complete_lines_def carry_over_def split_on_fragment)

lemma for_lines_decode:
  "for_lines rt lines pending state = dispatch rt (decode pending lines) state"
  by (induction lines arbitrary: pending state)
     (auto simp: substring_def split: prod.splits option.splits)

lemma parseSSELines_dispatch:
  "parseSSELines rt buffer state =
     (case dispatch rt (decode [] (complete_lines buffer)) state of
        (state', out, Some f) \<Rightarrow> (state', out, Inl f)
      | (state', out, None) \<Rightarrow> (state', out, Inr (carry_over buffer)))"
  unfolding complete_lines_def carry_over_def
  by (simp add: parseSSELines_def pop_def split_on_not_Nil for_lines_decode Let_def)

lemma parseSSELines_no_newline:
  "newline \<notin> set buffer \<Longrightarrow> parseSSELines rt buffer state = (state, [], Inr buffer)"
  by (simp add: parseSSELines_dispatch carry_over_whole)

lemma data_line_not_event: "startsWith l ''data: '' \<Longrightarrow> \<not> startsWith l ''event: ''"
  by (cases l) (auto simp: startsWith_def)

lemma decode_ignored:
  "list_all (\<lambda>l. \<not> startsWith l ''event: '' \<and> \<not> startsWith l ''data: '') pre \<Longrightarrow>
   decode pending (pre @ lines) = decode pending lines"
  by (induction pre) auto

lemma framing_parts:
  shows "join_lines (complete_lines buffer) (carry_over buffer) = buffer"
    and "newline \<notin> set (carry_over buffer)"
    and "newline \<notin> set (concat (complete_lines buffer))"
proof -
  show "join_lines (complete_lines buffer) (carry_over buffer) = buffer"
    by (simp add: join_lines_def complete_lines_def carry_over_def split_on_rejoin)
  have "newline \<notin> set (concat (split_on newline buffer))"
    by (rule split_on_no_sep)
  then show "newline \<notin> set (carry_over buffer)" "newline \<notin> set (concat (complete_lines buffer))"
    using split_on_not_Nil[of newline buffer]
    by (auto simp: carry_over_def complete_lines_def dest: in_set_butlastD)
qed

text \<open>
  The contract of \<open>parseSSELines\<close>. For every buffer: the buffer is its complete lines, each
  closed by a newline, followed by the carry-over, and neither a line nor the carry-over holds
  a newline (so the carry-over is the text after the last newline: the whole buffer when
  there is none, empty for the empty buffer); \<open>parseSSELines\<close> dispatches the events that the
  decoder of the specification reads from the complete lines, in order, each line read once
  and nothing read from the carry-over, and returns the carry-over, as long as no dispatch
  throws. A fault thrown by the dispatch of an event leaves \<open>parseSSELines\<close> as that fault:
  the lines after it are not read and no carry-over is returned.
\<close>

theorem parseSSELines_contract:
  "join_lines (complete_lines buffer) (carry_over buffer) = buffer \<and>
   newline \<notin> set (carry_over buffer) \<and>
   newline \<notin> set (concat (complete_lines buffer)) \<and>
   parseSSELines rt buffer state =
     (case dispatch rt (decode [] (complete_lines buffer)) state of
        (state', out, Some f) \<Rightarrow> (state', out, Inl f)
      | (state', out, None) \<Rightarrow> (state', out, Inr (carry_over buffer))) \<and>
   (newline \<notin> set buffer \<longrightarrow> parseSSELines rt buffer state = (state, [], Inr buffer)) \<and>
   parseSSELines rt [] state = (state, [], Inr [])"
  using framing_parts[of buffer] parseSSELines_dispatch[of rt buffer state]
        parseSSELines_no_newline[of buffer rt state] parseSSELines_no_newline[of "[]" rt state]
  by simp

text \<open>
  An example with a padded event type and with lines that miss a prefix by its space.
\<close>

theorem parseSSELines_contract_witness:
  \<open>parseSSELines sample_runtime ''partial'' initial_state = (initial_state, [], Inr ''partial'') \<and>
   complete_lines ''event:  stdout \<newline>event:start\<newline>data:x\<newline>data: {"data":"hello"}\<newline>partial''
     = [''event:  stdout '', ''event:start'', ''data:x'', ''data: {"data":"hello"}''] \<and>
   carry_over ''event:  stdout \<newline>event:start\<newline>data:x\<newline>data: {"data":"hello"}\<newline>partial''
     = ''partial'' \<and>
   decode [] [''event:  stdout '', ''event:start'', ''data:x'', ''data: {"data":"hello"}'']
     = [(''stdout'', ''{"data":"hello"}'')] \<and>
   parseSSELines sample_runtime
      ''event:  stdout \<newline>event:start\<newline>data:x\<newline>data: {"data":"hello"}\<newline>partial'' initial_state
     = (\<lparr>outputBuffer = ''hello'', status = ''unknown'', error = JNull, costUsd = None\<rparr>,
        [Info ''hello''], Inr ''partial'')\<close>
proof -
  let ?b = \<open>''event:  stdout \<newline>event:start\<newline>data:x\<newline>data: {"data":"hello"}\<newline>partial''\<close>
  let ?ls = \<open>[''event:  stdout '', ''event:start'', ''data:x'', ''data: {"data":"hello"}'']\<close>
  have n: "newline \<notin> set ''partial''" by simp
  have cl: "complete_lines ?b = ?ls" and co: "carry_over ?b = ''partial''"
    by (simp_all add: complete_lines_def carry_over_def)
  have de: \<open>decode [] ?ls = [(''stdout'', ''{"data":"hello"}'')]\<close>
    by (simp add: startsWith_def trim_def is_space_def)
  have di: \<open>dispatch sample_runtime [(''stdout'', ''{"data":"hello"}'')] initial_state
              = (\<lparr>outputBuffer = ''hello'', status = ''unknown'', error = JNull, costUsd = None\<rparr>,
                 [Info ''hello''], None)\<close>
    by (simp add: eval_defs)
  from parseSSELines_contract[of "''partial''" sample_runtime initial_state] n
  have "parseSSELines sample_runtime ''partial'' initial_state = (initial_state, [], Inr ''partial'')"
    by blast
  moreover from parseSSELines_contract[of ?b sample_runtime initial_state]
  have "parseSSELines sample_runtime ?b initial_state
     = (case dispatch sample_runtime (decode [] (complete_lines ?b)) initial_state of
          (state', out, Some f) \<Rightarrow> (state', out, Inl f)
        | (state', out, None) \<Rightarrow> (state', out, Inr (carry_over ?b)))"
    by blast
  then have "parseSSELines sample_runtime ?b initial_state
     = (\<lparr>outputBuffer = ''hello'', status = ''unknown'', error = JNull, costUsd = None\<rparr>,
        [Info ''hello''], Inr ''partial'')"
    by (simp only: cl co de di prod.case option.case)
  ultimately show ?thesis using cl co de by simp
qed

text \<open>
  C10. The pending event type is a local variable of one call. In a buffer whose first
  \<^verbatim>\<open>data: \<close> line is preceded by ignored lines only, that line is dispatched with the empty
  event type, whatever state the call starts from (the state is all that an earlier call
  hands on), and the call goes on as a call on the rest of the buffer would.
\<close>

theorem pending_type_is_local:
  assumes "newline \<notin> set rest" and "newline \<notin> set (concat (pre @ dline # post))"
    and "list_all (\<lambda>l. \<not> startsWith l ''event: '' \<and> \<not> startsWith l ''data: '') pre"
    and "startsWith dline ''data: ''"
  shows "parseSSELines rt (join_lines (pre @ dline # post) rest) state =
     (case processSSEEvent rt [] (drop 6 dline) state of
        (state', out, Some f) \<Rightarrow> (state', out, Inl f)
      | (state', out, None) \<Rightarrow>
          (case parseSSELines rt (join_lines post rest) state' of
             (state'', out', r) \<Rightarrow> (state'', out @ out', r)))"
proof -
  from assms(2) have post: "newline \<notin> set (concat post)" by auto
  from assms(4) have "\<not> startsWith dline ''event: ''"
    by (rule data_line_not_event)
  with assms(4) have "decode [] (pre @ dline # post) = ([], drop 6 dline) # decode [] post"
    by (simp add: decode_ignored[OF assms(3)])
  then show ?thesis
    by (simp add: parseSSELines_dispatch framing_unique[OF assms(1,2)] framing_unique[OF assms(1) post]
          split: prod.splits option.splits)
qed

theorem pending_type_is_local_witness:
  \<open>parseSSELines sample_runtime ''event: stdout\<newline>'' initial_state = (initial_state, [], Inr []) \<and>
   parseSSELines sample_runtime ''id: 7\<newline>data: {"data":"hello"}\<newline>par'' initial_state
     = (initial_state, [Debug ''Unknown event type: ''], Inr ''par'')\<close>
proof -
  have first: "parseSSELines sample_runtime ''event: stdout\<newline>'' initial_state = (initial_state, [], Inr [])"
    by (simp add: parseSSELines_def pop_def startsWith_def)
  have ev: \<open>processSSEEvent sample_runtime [] ''{"data":"hello"}'' initial_state
              = (initial_state, [Debug ''Unknown event type: ''], None)\<close>
    by (simp add: processSSEEvent_def sample_runtime_def)
  have tail: "parseSSELines sample_runtime (join_lines [] ''par'') initial_state = (initial_state, [], Inr ''par'')"
    by (simp add: join_lines_def parseSSELines_def pop_def)
  have \<open>parseSSELines sample_runtime (join_lines ([''id: 7''] @ ''data: {"data":"hello"}'' # []) ''par'') initial_state
          = (initial_state, [Debug ''Unknown event type: ''], Inr ''par'')\<close>
    using pending_type_is_local[of "''par''" "[''id: 7'']" \<open>''data: {"data":"hello"}''\<close> "[]"
            sample_runtime initial_state]
    by (simp add: startsWith_def ev tail)
  then show ?thesis using first by (simp add: join_lines_def)
qed

section \<open>One event\<close>

lemma or_else_not_null: "or_else rt e (JStr s) \<noteq> JNull"
  by (cases e) auto

lemma processSSEEvent_unparsable:
  "JSON_parse rt rawData = None \<Longrightarrow>
   processSSEEvent rt eventType rawData state
     = (state, [Debug (''Failed to parse SSE data: '' @ rawData)], None)"
  by (simp add: processSSEEvent_def)

lemma processSSEEvent_error:
  assumes "JSON_parse rt rawData = Some event"
    and "processSSEEvent rt ''error'' rawData state = (state', out, None)"
  shows "status state' = ''failed''"
    and "\<exists>e. getProp event ''error'' = Inr e \<and>
           error state' = (case e of None \<Rightarrow> JStr ''Unknown error''
                           | Some v \<Rightarrow> if truthy rt v then v else JStr ''Unknown error'')"
  using assms
  by (auto simp: processSSEEvent_def Let_def split: sum.splits option.splits)

lemma processSSEEvent_status:
  assumes "processSSEEvent rt eventType rawData state = (state', out, r)"
    and "status state' \<noteq> status state"
  shows "eventType = ''complete'' \<or> eventType = ''error''"
  using assms
  by (auto simp: processSSEEvent_def Let_def split: sum.splits option.splits if_splits)

lemma processSSEEvent_costUsd:
  assumes "processSSEEvent rt eventType rawData state = (state', out, r)"
    and "costUsd state' \<noteq> costUsd state"
  shows "eventType = ''complete'' \<and>
         (\<exists>event c. JSON_parse rt rawData = Some event \<and> getProp event ''costUsd'' = Inr (Some c) \<and>
                    costUsd state' = Some c)"
  using assms
  by (auto simp: processSSEEvent_def Let_def split: sum.splits option.splits if_splits)

lemma processSSEEvent_complete:
  assumes "JSON_parse rt rawData = Some event"
    and "processSSEEvent rt ''complete'' rawData state = (state', out, r)"
  shows "status state' = ''completed''"
    and "costUsd state' = (case getProp event ''costUsd'' of Inr (Some c) \<Rightarrow> Some c | _ \<Rightarrow> costUsd state)"
    and "(\<exists>c. getProp event ''costUsd'' = Inr c) \<Longrightarrow> r = None"
  using assms
  by (auto simp: processSSEEvent_def Let_def split: sum.splits option.splits)

lemma processSSEEvent_error_recorded:
  assumes "error_recorded state" and "processSSEEvent rt eventType rawData state = (state', out, None)"
  shows "error_recorded state'"
  using assms
  by (auto simp: processSSEEvent_def error_recorded_def Let_def or_else_not_null
           split: sum.splits option.splits if_splits)

lemma processSSEEvent_unknown_type:
  assumes "JSON_parse rt rawData = Some event"
    and "eventType \<notin> set [''start'', ''stdout'', ''stderr'', ''complete'', ''error'']"
  shows "processSSEEvent rt eventType rawData state
           = (state, [Debug (''Unknown event type: '' @ eventType)], None)"
  using assms by (simp add: processSSEEvent_def)

section \<open>The read loop\<close>

lemma dispatch_error_recorded:
  "error_recorded state \<Longrightarrow> dispatch rt events state = (state', out, None) \<Longrightarrow> error_recorded state'"
proof (induction events arbitrary: state out)
  case Nil
  then show ?case by simp
next
  case (Cons ev events)
  obtain t d where ev: "ev = (t, d)" by (cases ev)
  obtain s1 o1 r1 where p: "processSSEEvent rt t d state = (s1, o1, r1)" by (cases "processSSEEvent rt t d state")
  from Cons.prems(2) ev p have r1: "r1 = None" by (cases r1) auto
  obtain s2 o2 r2 where d: "dispatch rt events s1 = (s2, o2, r2)" by (cases "dispatch rt events s1")
  from Cons.prems(2) ev p r1 d have "s2 = state'" "r2 = None" by auto
  moreover from processSSEEvent_error_recorded[OF Cons.prems(1)] p r1 have "error_recorded s1" by simp
  ultimately show ?case using Cons.IH[of s1 o2] d by simp
qed

lemma parseSSELines_error_recorded:
  assumes "error_recorded state" and "parseSSELines rt buffer state = (state', out, Inr remainder)"
  shows "error_recorded state'"
proof -
  obtain s1 o1 r1 where d: "dispatch rt (decode [] (complete_lines buffer)) state = (s1, o1, r1)"
    by (cases "dispatch rt (decode [] (complete_lines buffer)) state")
  with assms(2) have "r1 = None" "s1 = state'"
    by (cases r1; simp add: parseSSELines_dispatch)+
  with dispatch_error_recorded[OF assms(1)] d show ?thesis by simp
qed

lemma read_loop_error_recorded:
  "error_recorded state \<Longrightarrow> read_loop rt reads buffer state = (state', out, None) \<Longrightarrow>
   error_recorded state'"
proof (induction rt reads buffer state arbitrary: out rule: read_loop.induct)
  case (1 rt buffer state)
  then show ?case by simp
next
  case (2 rt f reads buffer state)
  then show ?case by simp
next
  case (3 rt v reads buffer state)
  obtain s1 o1 r1 where p: "parseSSELines rt (buffer @ v) state = (s1, o1, r1)"
    by (cases "parseSSELines rt (buffer @ v) state")
  from "3.prems"(2) p obtain remainder where r1: "r1 = Inr remainder" by (cases r1) auto
  from parseSSELines_error_recorded[OF "3.prems"(1)] p r1 have s1: "error_recorded s1" by simp
  show ?case
  proof (cases "status s1 = ''completed'' \<or> status s1 = ''failed''")
    case True
    with "3.prems"(2) p r1 s1 show ?thesis by auto
  next
    case False
    obtain s2 o2 r2 where l: "read_loop rt reads remainder s1 = (s2, o2, r2)"
      by (cases "read_loop rt reads remainder s1")
    from "3.prems"(2) p r1 False l have e: "s2 = state'" "r2 = None" by auto
    show ?thesis
      by (rule "3.IH"[OF p[symmetric] refl r1 False s1]) (use l e in simp)
  qed
qed

text \<open>A loop that ended on a terminal status ignores whatever the stream holds after.\<close>

lemma read_loop_stops:
  "read_loop rt reads buffer state = (state', out, None) \<Longrightarrow> terminal (status state') \<Longrightarrow>
   \<not> terminal (status state) \<Longrightarrow> read_loop rt (reads @ later) buffer state = (state', out, None)"
proof (induction rt reads buffer state arbitrary: out rule: read_loop.induct)
  case (1 rt buffer state)
  then show ?case by simp
next
  case (2 rt f reads buffer state)
  then show ?case by simp
next
  case (3 rt v reads buffer state)
  obtain s1 o1 r1 where p: "parseSSELines rt (buffer @ v) state = (s1, o1, r1)"
    by (cases "parseSSELines rt (buffer @ v) state")
  from "3.prems"(1) p obtain remainder where r1: "r1 = Inr remainder" by (cases r1) auto
  show ?case
  proof (cases "status s1 = ''completed'' \<or> status s1 = ''failed''")
    case True
    with "3.prems"(1) p r1 show ?thesis by auto
  next
    case False
    obtain s2 o2 r2 where l: "read_loop rt reads remainder s1 = (s2, o2, r2)"
      by (cases "read_loop rt reads remainder s1")
    from "3.prems"(1) p r1 False l have e: "s2 = state'" "r2 = None" "out = o1 @ o2" by auto
    from False have nt: "\<not> terminal (status s1)" by (simp add: terminal_def)
    from l e have l': "read_loop rt reads remainder s1 = (state', o2, None)" by simp
    have "read_loop rt (reads @ later) remainder s1 = (state', o2, None)"
      by (rule "3.IH"[OF p[symmetric] refl r1 False l' "3.prems"(2) nt])
    with p r1 False e show ?thesis by simp
  qed
qed


section \<open>The orchestrator\<close>

lemma read_body_failed:
  assumes "read_body rt response = (Inr res, out)" and "result_status res = ''failed''"
  shows "result_error res \<noteq> JNull"
proof -
  from assms(1) obtain reads where b: "body response = Some reads"
    by (cases "body response") (auto simp: read_body_def)
  obtain state out' r where l: "read_loop rt reads [] initial_state = (state, out', r)"
    by (cases "read_loop rt reads [] initial_state")
  from assms(1) b l have r: "r = None" by (cases r) (auto simp: read_body_def)
  have "error_recorded (initial_state :: 'a StreamState)"
    by (simp add: error_recorded_def initial_state_def)
  from read_loop_error_recorded[OF this] l r have "error_recorded state" by simp
  moreover from assms(1) b l r have "result_status res = status state" "result_error res = error state"
    by (auto simp: read_body_def)
  ultimately show ?thesis using assms(2) by (simp add: error_recorded_def)
qed

lemma streamTaskOutput_try_failed:
  assumes "streamTaskOutput_try rt fetcher url apiKey = (Inr res, out)"
    and "result_status res = ''failed''"
  shows "result_error res \<noteq> JNull"
  using assms read_body_failed[of rt _ res out]
  by (auto simp: streamTaskOutput_try_def Let_def or_else_not_null
           split: promise.splits if_splits sum.splits option.splits)


lemma streamTaskOutput_returned:
  "streamTaskOutput_try rt fetcher url apiKey = (Inr res, out) \<Longrightarrow>
   streamTaskOutput rt fetcher url apiKey timeoutMs = (Inr res, out)"
  by (simp add: streamTaskOutput_def)



lemma json_error_response:
  assumes "fetcher url [(''Authorization'', ''Bearer '' @ apiKey), (''Accept'', ''text/event-stream'')] = Resolved response"
    and "ok response" and "content_type response = Some contentType"
    and "includes_str contentType ''application/json''"
    and "body_json response = Resolved j" and "getProp j ''error'' = Inr (Some e)" and "truthy rt e"
  shows "\<exists>m. (if typeof_object e then getProp e ''message'' else Inr (Some e)) = Inr m \<and>
           streamTaskOutput rt fetcher url apiKey timeoutMs
             = (Inr \<lparr>result_status = ''failed'', result_output = None, result_costUsd = None,
                      result_error = (case m of None \<Rightarrow> JStr ''Unknown error''
                                      | Some v \<Rightarrow> if truthy rt v then v else JStr ''Unknown error'')\<rparr>, [])"
proof -
  from assms(4) have inc: "includes_str (if contentType = [] then [] else contentType) ''application/json''"
    by simp
  from assms(7) have "e \<noteq> JNull" by auto
  then obtain m where m: "(if typeof_object e then getProp e ''message'' else Inr (Some e)) = Inr m"
    by (cases e) auto
  have "or_else rt m (JStr ''Unknown error'')
          = (case m of None \<Rightarrow> JStr ''Unknown error''
             | Some v \<Rightarrow> if truthy rt v then v else JStr ''Unknown error'')"
    by (cases m) auto
  with assms inc m show ?thesis
    by (auto simp: streamTaskOutput_def streamTaskOutput_try_def)
qed



text \<open>
  C6 (amended). An \<^verbatim>\<open>error\<close> event that is processed without a fault sets the status to
  \<^verbatim>\<open>failed\<close> and stores a non-null error: the payload's \<^verbatim>\<open>error\<close> field when that field is
  present and truthy (for a text: not empty), and \<^verbatim>\<open>Unknown error\<close> when the field is absent
  or falsy. An ok response whose content type includes \<^verbatim>\<open>application/json\<close> (parameters such
  as a charset allowed) and whose body has a truthy \<^verbatim>\<open>error\<close> field is returned as the status
  \<^verbatim>\<open>failed\<close> with that field as the error (its \<^verbatim>\<open>message\<close> when the field is an object), and
  with \<^verbatim>\<open>Unknown error\<close> when that is absent or falsy. Whenever \<open>streamTaskOutput\<close> returns
  the status \<^verbatim>\<open>failed\<close>, from the stream or from the JSON response, the error of the result is
  non-null.
\<close>

theorem failed_has_error:
  "(JSON_parse rt rawData = Some event \<and>
    processSSEEvent rt ''error'' rawData state = (state', out, None) \<longrightarrow>
      status state' = ''failed'' \<and> error state' \<noteq> JNull \<and>
      (\<exists>e. getProp event ''error'' = Inr e \<and>
           error state' = (case e of None \<Rightarrow> JStr ''Unknown error''
                           | Some v \<Rightarrow> if truthy rt v then v else JStr ''Unknown error''))) \<and>
   (fetcher url [(''Authorization'', ''Bearer '' @ apiKey), (''Accept'', ''text/event-stream'')] = Resolved response \<and>
    ok response \<and> content_type response = Some contentType \<and>
    includes_str contentType ''application/json'' \<and>
    body_json response = Resolved j \<and> getProp j ''error'' = Inr (Some e) \<and> truthy rt e \<longrightarrow>
      (\<exists>m. (if typeof_object e then getProp e ''message'' else Inr (Some e)) = Inr m \<and>
           streamTaskOutput rt fetcher url apiKey timeoutMs
             = (Inr \<lparr>result_status = ''failed'', result_output = None, result_costUsd = None,
                      result_error = (case m of None \<Rightarrow> JStr ''Unknown error''
                                      | Some v \<Rightarrow> if truthy rt v then v else JStr ''Unknown error'')\<rparr>, []))) \<and>
   (streamTaskOutput rt fetcher url apiKey timeoutMs = (Inr res, calls) \<and>
    result_status res = ''failed'' \<longrightarrow> result_error res \<noteq> JNull)"
proof -
  have first: "status state' = ''failed'' \<and> error state' \<noteq> JNull \<and>
      (\<exists>e. getProp event ''error'' = Inr e \<and>
           error state' = (case e of None \<Rightarrow> JStr ''Unknown error''
                           | Some v \<Rightarrow> if truthy rt v then v else JStr ''Unknown error''))"
    if "JSON_parse rt rawData = Some event"
      and "processSSEEvent rt ''error'' rawData state = (state', out, None)"
  proof -
    have st: "status state' = ''failed''" by (rule processSSEEvent_error(1)[OF that])
    from processSSEEvent_error(2)[OF that] obtain e where e: "getProp event ''error'' = Inr e"
      "error state' = (case e of None \<Rightarrow> JStr ''Unknown error''
                       | Some v \<Rightarrow> if truthy rt v then v else JStr ''Unknown error'')"
      by blast
    from e(2) have "error state' \<noteq> JNull"
      by (cases e) (auto split: if_splits)
    with st e show ?thesis by blast
  qed
  have second: "result_error res \<noteq> JNull"
    if a: "streamTaskOutput rt fetcher url apiKey timeoutMs = (Inr res, calls)"
      and f: "result_status res = ''failed''"
  proof (cases "streamTaskOutput_try rt fetcher url apiKey")
    case (Pair r out)
    show ?thesis
    proof (cases r)
      case (Inl err)
      with a f Pair show ?thesis
        by (auto simp: streamTaskOutput_def split: if_splits)
    next
      case (Inr res')
      with a Pair have "res' = res" by (simp add: streamTaskOutput_def)
      with streamTaskOutput_try_failed[of rt fetcher url apiKey res out] Pair Inr f
      show ?thesis by simp
    qed
  qed
  from first second json_error_response[of fetcher url apiKey response contentType j e rt timeoutMs]
  show ?thesis by blast
qed

theorem failed_has_error_witness:
  \<open>processSSEEvent sample_runtime ''error'' ''{"error":"task crashed"}'' initial_state
     = (\<lparr>outputBuffer = [], status = ''failed'', error = JStr ''task crashed'', costUsd = None\<rparr>,
        [Error ''[Stream] Task failed: task crashed''], None) \<and>
   error \<lparr>outputBuffer = [], status = ''failed'', error = JStr ''task crashed'', costUsd = None :: nat json option\<rparr>
     \<noteq> JNull \<and>
   streamTaskOutput sample_runtime (sample_fetch [''event: error\<newline>data: {}\<newline>\<newline>''])
      ''https://api.test/stream'' ''test-key'' 100
     = (Inr \<lparr>result_status = ''failed'', result_output = None, result_costUsd = None,
              result_error = JStr ''Unknown error''\<rparr>,
        [Error ''[Stream] Task failed: Unknown error'']) \<and>
   result_error \<lparr>result_status = ''failed'', result_output = None, result_costUsd = None :: nat json option,
                 result_error = JStr ''Unknown error''\<rparr> \<noteq> JNull \<and>
   includes_str ''application/json; charset=utf-8'' ''application/json'' \<and>
   streamTaskOutput sample_runtime
      (\<lambda>url headers. Resolved
         \<lparr>ok = True, response_status = 200, body_text = Resolved [],
          content_type = Some ''application/json; charset=utf-8'',
          body_json = Resolved (JObj [(''error'', JObj [(''message'', JStr ''detailed error'')])]),
          body = Some []\<rparr>)
      ''https://api.test/stream'' ''test-key'' 100
     = (Inr \<lparr>result_status = ''failed'', result_output = None, result_costUsd = None,
              result_error = JStr ''detailed error''\<rparr>, [])\<close>
proof -
  let ?s = "\<lparr>outputBuffer = [], status = ''failed'', error = JStr ''task crashed'', costUsd = None\<rparr>
            :: nat StreamState"
  let ?r = "\<lparr>result_status = ''failed'', result_output = None, result_costUsd = None,
             result_error = JStr ''Unknown error''\<rparr> :: nat StreamResult"
  let ?e = "JObj [(''message'', JStr ''detailed error'')] :: nat json"
  let ?response = "\<lparr>ok = True, response_status = 200, body_text = Resolved [],
          content_type = Some ''application/json; charset=utf-8'',
          body_json = Resolved (JObj [(''error'', ?e)]), body = Some []\<rparr> :: nat response"
  have p: \<open>JSON_parse sample_runtime ''{"error":"task crashed"}'' = Some (JObj [(''error'', JStr ''task crashed'')])\<close>
    by (simp add: sample_runtime_def)
  have e: \<open>processSSEEvent sample_runtime ''error'' ''{"error":"task crashed"}'' initial_state
            = (?s, [Error ''[Stream] Task failed: task crashed''], None)\<close>
    by (simp add: eval_defs)
  have t: "streamTaskOutput sample_runtime (sample_fetch [''event: error\<newline>data: {}\<newline>\<newline>''])
             ''https://api.test/stream'' ''test-key'' 100
           = (Inr ?r, [Error ''[Stream] Task failed: Unknown error''])"
    by (simp add: streamTaskOutput_def streamTaskOutput_try_def sample_fetch_def read_body_def eval_defs)
  note w = failed_has_error[where rt = sample_runtime and rawData = \<open>''{"error":"task crashed"}''\<close>
             and event = "JObj [(''error'', JStr ''task crashed'')]" and state = initial_state
             and state' = ?s and out = "[Error ''[Stream] Task failed: task crashed'']"
             and fetcher = "sample_fetch [''event: error\<newline>data: {}\<newline>\<newline>'']"
             and url = "''https://api.test/stream''" and apiKey = "''test-key''" and timeoutMs = 100
             and res = ?r and calls = "[Error ''[Stream] Task failed: Unknown error'']"]
  note w2 = failed_has_error[where rt = sample_runtime and fetcher = "\<lambda>url headers. Resolved ?response"
             and url = "''https://api.test/stream''" and apiKey = "''test-key''" and timeoutMs = 100
             and response = ?response and contentType = "''application/json; charset=utf-8''"
             and j = "JObj [(''error'', ?e)]" and e = ?e]
  have inc: "includes_str ''application/json; charset=utf-8'' ''application/json''"
    by (simp add: startsWith_def)
  from w p e t have a: "error ?s \<noteq> JNull" "result_error ?r \<noteq> JNull" by simp_all
  from w2 inc have "streamTaskOutput sample_runtime (\<lambda>url headers. Resolved ?response)
      ''https://api.test/stream'' ''test-key'' 100
     = (Inr \<lparr>result_status = ''failed'', result_output = None, result_costUsd = None,
              result_error = JStr ''detailed error''\<rparr>, [])" by (simp add: startsWith_def)
  with a e t inc show ?thesis by (simp add: startsWith_def)
qed

text \<open>
  C6 as stated fails: a payload whose \<^verbatim>\<open>error\<close> field is present and empty does not get that
  field stored.
\<close>

theorem empty_error_field_is_replaced:
  \<open>JSON_parse sample_runtime ''{"error":""}'' = Some (JObj [(''error'', JStr [])]) \<and>
   getProp (JObj [(''error'', JStr [])] :: nat json) ''error'' = Inr (Some (JStr [])) \<and>
   processSSEEvent sample_runtime ''error'' ''{"error":""}'' initial_state
     = (\<lparr>outputBuffer = [], status = ''failed'', error = JStr ''Unknown error'', costUsd = None\<rparr>,
        [Error ''[Stream] Task failed: Unknown error''], None)\<close>
  by (simp add: eval_defs)

text \<open>
  C3 (amended). Only \<^verbatim>\<open>complete\<close> and \<^verbatim>\<open>error\<close> events write the status, and once the
  processing of a chunk has left the status \<^verbatim>\<open>completed\<close> or \<^verbatim>\<open>failed\<close> the read loop stops:
  nothing that the stream delivers afterwards changes the state.
\<close>

theorem terminal_status_ends_stream:
  "(processSSEEvent rt eventType rawData state = (state1, out1, r1) \<and> status state1 \<noteq> status state \<longrightarrow>
      eventType = ''complete'' \<or> eventType = ''error'') \<and>
   (read_loop rt reads buffer state = (state', out, None) \<and> terminal (status state') \<and>
    \<not> terminal (status state) \<longrightarrow>
      read_loop rt (reads @ later) buffer state = (state', out, None))"
  using processSSEEvent_status[of rt eventType rawData state state1 out1 r1]
        read_loop_stops[of rt reads buffer state state' out later]
  by blast

theorem terminal_status_ends_stream_witness:
  "processSSEEvent sample_runtime ''complete'' ''{}'' initial_state
     = (\<lparr>outputBuffer = [], status = ''completed'', error = JNull, costUsd = None\<rparr>,
        [Info ''[Stream] Task completed''], None) \<and>
   status \<lparr>outputBuffer = [], status = ''completed'', error = JNull, costUsd = None :: nat json option\<rparr>
     \<noteq> status (initial_state :: nat StreamState) \<and>
   (''complete'' = ''complete'' \<or> ''complete'' = ''error'') \<and>
   read_loop sample_runtime [Chunk ''event: complete\<newline>data: {}\<newline>''] [] initial_state
     = (\<lparr>outputBuffer = [], status = ''completed'', error = JNull, costUsd = None\<rparr>,
        [Info ''[Stream] Task completed''], None) \<and>
   read_loop sample_runtime
      ([Chunk ''event: complete\<newline>data: {}\<newline>''] @ [Chunk ''event: error\<newline>data: {}\<newline>''])
      [] initial_state
     = (\<lparr>outputBuffer = [], status = ''completed'', error = JNull, costUsd = None\<rparr>,
        [Info ''[Stream] Task completed''], None)"
proof -
  let ?s = "\<lparr>outputBuffer = [], status = ''completed'', error = JNull, costUsd = None\<rparr> :: nat StreamState"
  have e: "processSSEEvent sample_runtime ''complete'' ''{}'' initial_state
             = (?s, [Info ''[Stream] Task completed''], None)"
    by (simp add: eval_defs)
  have c: "status ?s \<noteq> status (initial_state :: nat StreamState)"
    by (simp add: initial_state_def)
  have l: "read_loop sample_runtime [Chunk ''event: complete\<newline>data: {}\<newline>''] [] initial_state
             = (?s, [Info ''[Stream] Task completed''], None)"
    by (simp add: eval_defs)
  have t: "terminal (status ?s)" "\<not> terminal (status (initial_state :: nat StreamState))"
    by (simp_all add: terminal_def initial_state_def)
  note w = terminal_status_ends_stream[where rt = sample_runtime
         and eventType = "''complete''" and rawData = "''{}''" and ?state1.0 = ?s
         and ?out1.0 = "[Info ''[Stream] Task completed'']" and ?r1.0 = None
         and reads = "[Chunk ''event: complete\<newline>data: {}\<newline>'']" and buffer = "[]"
         and state = initial_state and state' = ?s and out = "[Info ''[Stream] Task completed'']"
         and later = "[Chunk ''event: error\<newline>data: {}\<newline>'']"]
  from w e c have "''complete'' = ''complete'' \<or> ''complete'' = ''error''" by blast
  moreover from w l t have "read_loop sample_runtime
      ([Chunk ''event: complete\<newline>data: {}\<newline>''] @ [Chunk ''event: error\<newline>data: {}\<newline>''])
      [] initial_state = (?s, [Info ''[Stream] Task completed''], None)" by blast
  ultimately show ?thesis using e c l by blast
qed

text \<open>
  C3 as stated fails: within one chunk the events after a terminal one are still
  processed, and an \<^verbatim>\<open>error\<close> event overwrites the status \<^verbatim>\<open>completed\<close>.
\<close>

theorem terminal_status_overwritten:
  "decode [] (complete_lines ''event: complete\<newline>data: {}\<newline>event: error\<newline>data: {}\<newline>'')
     = [(''complete'', ''{}''), (''error'', ''{}'')] \<and>
   processSSEEvent sample_runtime ''complete'' ''{}'' initial_state
     = (\<lparr>outputBuffer = [], status = ''completed'', error = JNull, costUsd = None\<rparr>,
        [Info ''[Stream] Task completed''], None) \<and>
   read_loop sample_runtime
      [Chunk ''event: complete\<newline>data: {}\<newline>event: error\<newline>data: {}\<newline>''] [] initial_state
     = (\<lparr>outputBuffer = [], status = ''failed'', error = JStr ''Unknown error'', costUsd = None\<rparr>,
        [Info ''[Stream] Task completed'', Error ''[Stream] Task failed: Unknown error''], None)"
  by (simp add: eval_defs complete_lines_def)

text \<open>
  C4 (amended). \<^verbatim>\<open>complete\<close> is the only event type that writes \<open>costUsd\<close>. A \<^verbatim>\<open>complete\<close>
  event whose payload carries a numeric cost field sets \<open>costUsd\<close> to that number, whether
  or not it was set before (so it can be set more than once in a stream, and the last such
  value wins), and \<open>costUsd\<close> becomes a number in no other way; a \<^verbatim>\<open>complete\<close> event whose
  payload has no cost field leaves \<open>costUsd\<close> as it is. Every \<^verbatim>\<open>complete\<close> event whose payload
  parses sets the status to \<^verbatim>\<open>completed\<close>, each time one is processed.
\<close>

theorem costUsd_writer:
  "(processSSEEvent rt eventType rawData state = (state', out, r) \<and> costUsd state' \<noteq> costUsd state \<longrightarrow>
      eventType = ''complete'') \<and>
   (processSSEEvent rt eventType rawData state = (state', out, r) \<and> costUsd state' \<noteq> costUsd state \<and>
    costUsd state' = Some (JNum n) \<longrightarrow>
      (\<exists>event. JSON_parse rt rawData = Some event \<and> getProp event ''costUsd'' = Inr (Some (JNum n)))) \<and>
   (JSON_parse rt rawData = Some event \<and> getProp event ''costUsd'' = Inr (Some (JNum m)) \<and>
    processSSEEvent rt ''complete'' rawData state = (state1, out1, r1) \<longrightarrow>
      costUsd state1 = Some (JNum m) \<and> status state1 = ''completed'' \<and> r1 = None) \<and>
   (JSON_parse rt rawData = Some event \<and> getProp event ''costUsd'' = Inr None \<and>
    processSSEEvent rt ''complete'' rawData state = (state1, out1, r1) \<longrightarrow>
      costUsd state1 = costUsd state \<and> status state1 = ''completed'' \<and> r1 = None) \<and>
   (JSON_parse rt rawData = Some event \<and>
    processSSEEvent rt ''complete'' rawData state = (state1, out1, r1) \<longrightarrow>
      status state1 = ''completed'')"
proof -
  have writer: "eventType = ''complete''"
      "costUsd state' = Some (JNum n) \<Longrightarrow>
       \<exists>event. JSON_parse rt rawData = Some event \<and> getProp event ''costUsd'' = Inr (Some (JNum n))"
    if "processSSEEvent rt eventType rawData state = (state', out, r)"
      and "costUsd state' \<noteq> costUsd state"
    using processSSEEvent_costUsd[OF that] by auto
  have numeric: "costUsd state1 = Some (JNum m) \<and> status state1 = ''completed'' \<and> r1 = None"
    if "JSON_parse rt rawData = Some event" and "getProp event ''costUsd'' = Inr (Some (JNum m))"
      and "processSSEEvent rt ''complete'' rawData state = (state1, out1, r1)"
    using processSSEEvent_complete[OF that(1,3)] that(2) by simp
  have absent: "costUsd state1 = costUsd state \<and> status state1 = ''completed'' \<and> r1 = None"
    if "JSON_parse rt rawData = Some event" and "getProp event ''costUsd'' = Inr None"
      and "processSSEEvent rt ''complete'' rawData state = (state1, out1, r1)"
    using processSSEEvent_complete[OF that(1,3)] that(2) by simp
  have completed: "status state1 = ''completed''"
    if "JSON_parse rt rawData = Some event"
      and "processSSEEvent rt ''complete'' rawData state = (state1, out1, r1)"
    by (rule processSSEEvent_complete(1)[OF that])
  from writer numeric absent completed show ?thesis by blast
qed

theorem costUsd_writer_witness:
  \<open>processSSEEvent sample_runtime ''complete'' ''{"costUsd":2}''
      \<lparr>outputBuffer = [], status = ''completed'', error = JNull, costUsd = Some (JNum 1)\<rparr>
     = (\<lparr>outputBuffer = [], status = ''completed'', error = JNull, costUsd = Some (JNum 2)\<rparr>,
        [Info ''[Stream] Task completed''], None) \<and>
   JSON_parse sample_runtime ''{"costUsd":2}'' = Some (JObj [(''costUsd'', JNum 2)]) \<and>
   getProp (JObj [(''costUsd'', JNum (2::nat))]) ''costUsd'' = Inr (Some (JNum 2)) \<and>
   (\<exists>event. JSON_parse sample_runtime ''{"costUsd":2}'' = Some event \<and>
            getProp event ''costUsd'' = Inr (Some (JNum 2))) \<and>
   JSON_parse sample_runtime ''{}'' = Some (JObj []) \<and>
   getProp (JObj [] :: nat json) ''costUsd'' = Inr None \<and>
   processSSEEvent sample_runtime ''complete'' ''{}''
      \<lparr>outputBuffer = [], status = ''unknown'', error = JNull, costUsd = Some (JNum 1)\<rparr>
     = (\<lparr>outputBuffer = [], status = ''completed'', error = JNull, costUsd = Some (JNum 1)\<rparr>,
        [Info ''[Stream] Task completed''], None)\<close>
proof -
  let ?a = "\<lparr>outputBuffer = [], status = ''completed'', error = JNull, costUsd = Some (JNum 1)\<rparr>
            :: nat StreamState"
  let ?b = "\<lparr>outputBuffer = [], status = ''completed'', error = JNull, costUsd = Some (JNum 2)\<rparr>
            :: nat StreamState"
  let ?c = "\<lparr>outputBuffer = [], status = ''unknown'', error = JNull, costUsd = Some (JNum 1)\<rparr>
            :: nat StreamState"
  let ?out = "[Info ''[Stream] Task completed''] :: nat core_call list"
  have p2: \<open>JSON_parse sample_runtime ''{"costUsd":2}'' = Some (JObj [(''costUsd'', JNum 2)])\<close>
    and p0: "JSON_parse sample_runtime ''{}'' = Some (JObj [])"
    by (simp_all add: sample_runtime_def)
  have g2: "getProp (JObj [(''costUsd'', JNum (2::nat))]) ''costUsd'' = Inr (Some (JNum 2))"
    and g0: "getProp (JObj [] :: nat json) ''costUsd'' = Inr None"
    by simp_all
  obtain s2 o2 r2 where e2: \<open>processSSEEvent sample_runtime ''complete'' ''{"costUsd":2}'' ?a = (s2, o2, r2)\<close>
    by (cases \<open>processSSEEvent sample_runtime ''complete'' ''{"costUsd":2}'' ?a\<close>)
  obtain s0 o0 r0 where e0: "processSSEEvent sample_runtime ''complete'' ''{}'' ?c = (s0, o0, r0)"
    by (cases "processSSEEvent sample_runtime ''complete'' ''{}'' ?c")
  note w2 = costUsd_writer[where rt = sample_runtime and eventType = "''complete''"
              and rawData = \<open>''{"costUsd":2}''\<close> and state = ?a and state' = s2 and out = o2 and r = r2
              and n = 2 and event = "JObj [(''costUsd'', JNum 2)]" and m = 2
              and ?state1.0 = s2 and ?out1.0 = o2 and ?r1.0 = r2]
  note w0 = costUsd_writer[where rt = sample_runtime and rawData = "''{}''" and state = ?c
              and event = "JObj []" and ?state1.0 = s0 and ?out1.0 = o0 and ?r1.0 = r0]
  from w2 p2 g2 e2 have c2: "costUsd s2 = Some (JNum 2)" "status s2 = ''completed''" "r2 = None"
    by blast+
  then have "costUsd s2 \<noteq> costUsd ?a" by simp
  with w2 e2 c2(1) have ex: \<open>\<exists>event. JSON_parse sample_runtime ''{"costUsd":2}'' = Some event \<and>
            getProp event ''costUsd'' = Inr (Some (JNum 2))\<close>
    by blast
  from w0 p0 g0 e0 have c0: "costUsd s0 = costUsd ?c" "status s0 = ''completed''" "r0 = None"
    by blast+
  have v2: \<open>processSSEEvent sample_runtime ''complete'' ''{"costUsd":2}'' ?a = (?b, ?out, None)\<close>
    and v0: "processSSEEvent sample_runtime ''complete'' ''{}'' ?c = (?a, ?out, None)"
    by (simp_all add: eval_defs)
  from v2 v0 p2 p0 g2 g0 ex show ?thesis by simp
qed

text \<open>
  C4 as stated fails: of two \<^verbatim>\<open>complete\<close> events in one chunk, each with a numeric
  cost, the second one sets \<open>costUsd\<close> again, so it is set twice and the last value wins, not
  the first.
\<close>

theorem last_cost_wins:
  \<open>processSSEEvent sample_runtime ''complete'' ''{"costUsd":1}'' initial_state
     = (\<lparr>outputBuffer = [], status = ''completed'', error = JNull, costUsd = Some (JNum 1)\<rparr>,
        [Info ''[Stream] Task completed''], None) \<and>
   streamTaskOutput sample_runtime
      (sample_fetch [''event: complete\<newline>data: {"costUsd":1}\<newline>event: complete\<newline>data: {"costUsd":2}\<newline>''])
      ''https://api.test/stream'' ''test-key'' 100
     = (Inr \<lparr>result_status = ''completed'', result_output = None, result_costUsd = Some (JNum 2),
              result_error = JNull\<rparr>,
        [Info ''[Stream] Task completed'', Info ''[Stream] Task completed''])\<close>
  by (simp add: streamTaskOutput_def streamTaskOutput_try_def sample_fetch_def read_body_def eval_defs)

section \<open>The sanitizer\<close>

declare sanitize.simps [simp del]

lemma match_bearer_Nil: "match_bearer [] = None"
  by (simp add: match_bearer_def is_bearer_word_def)

lemma sanitize_Nil: "sanitize [] = []"
  by (simp add: sanitize.simps)

lemma sanitize_match:
  "match_bearer s = Some n \<Longrightarrow> sanitize s = ''Bearer ***'' @ sanitize (drop n s)"
  by (cases s) (simp_all add: sanitize.simps match_bearer_Nil)

lemma sanitize_nomatch:
  "match_bearer (c # cs) = None \<Longrightarrow> sanitize (c # cs) = c # sanitize cs"
  by (simp add: sanitize.simps)

lemma is_bearer_word_iff:
  "is_bearer_word w \<longleftrightarrow>
     (\<exists>b e a r e' r'. w = [b, e, a, r, e', r'] \<and>
          (b = CHR ''B'' \<or> b = CHR ''b'') \<and> (e = CHR ''E'' \<or> e = CHR ''e'') \<and>
          (a = CHR ''A'' \<or> a = CHR ''a'') \<and> (r = CHR ''R'' \<or> r = CHR ''r'') \<and>
          (e' = CHR ''E'' \<or> e' = CHR ''e'') \<and> (r' = CHR ''R'' \<or> r' = CHR ''r''))"
  unfolding is_bearer_word_def by (simp split: list.splits)

lemma bearer_word_shape:
  assumes "is_bearer_word w"
  shows "length w = 6" and "hd w = CHR ''B'' \<or> hd w = CHR ''b''"
    and "CHR ''B'' \<notin> set (tl w)" and "\<not> is_space (hd w)"
proof -
  from assms obtain b e a r e' r' where w: "w = [b, e, a, r, e', r']"
    and b: "b = CHR ''B'' \<or> b = CHR ''b''" and e: "e = CHR ''E'' \<or> e = CHR ''e''"
    and a: "a = CHR ''A'' \<or> a = CHR ''a''" and r: "r = CHR ''R'' \<or> r = CHR ''r''"
    and e': "e' = CHR ''E'' \<or> e' = CHR ''e''" and r': "r' = CHR ''R'' \<or> r' = CHR ''r''"
    unfolding is_bearer_word_iff by blast
  show "length w = 6" by (simp add: w)
  show "hd w = CHR ''B'' \<or> hd w = CHR ''b''" using b by (simp add: w)
  have "e \<noteq> CHR ''B''" using e by auto
  moreover have "a \<noteq> CHR ''B''" using a by auto
  moreover have "r \<noteq> CHR ''B''" using r by auto
  moreover have "e' \<noteq> CHR ''B''" using e' by auto
  moreover have "r' \<noteq> CHR ''B''" using r' by auto
  ultimately show "CHR ''B'' \<notin> set (tl w)" by (simp add: w)
  show "\<not> is_space (hd w)" using b by (auto simp: w is_space_def)
qed

lemma bearer_word_literal: "is_bearer_word ''Bearer''"
  by (simp add: is_bearer_word_def)

lemma match_bearer_head:
  assumes "match_bearer (c # cs) = Some n"
  shows "c = CHR ''B'' \<or> c = CHR ''b''"
proof -
  from assms have "is_bearer_word (take 6 (c # cs))"
    by (auto simp: match_bearer_def Let_def split: if_splits)
  from bearer_word_shape(2)[OF this] show ?thesis by simp
qed

lemma match_bearer_space: "is_space c \<Longrightarrow> match_bearer (c # cs) = None"
  using match_bearer_head[of c cs] by (cases "match_bearer (c # cs)") (auto simp: is_space_def)

lemma sanitize_Nil_iff: "sanitize s = [] \<longleftrightarrow> s = []"
  by (cases s) (auto simp: sanitize.simps split: option.splits)

text \<open>Up to the first capital B of the output, the output is the input.\<close>

lemma sanitize_copy:
  "k \<le> length (sanitize s) \<Longrightarrow> CHR ''B'' \<notin> set (take k (sanitize s)) \<Longrightarrow>
   take k s = take k (sanitize s) \<and> drop k (sanitize s) = sanitize (drop k s)"
proof (induction k arbitrary: s)
  case 0
  then show ?case by simp
next
  case (Suc k)
  then obtain c cs where s: "s = c # cs" by (cases s) (auto simp: sanitize_Nil)
  show ?case
  proof (cases "match_bearer (c # cs)")
    case None
    with Suc.prems s have "k \<le> length (sanitize cs)" "CHR ''B'' \<notin> set (take k (sanitize cs))"
      by (auto simp: sanitize_nomatch)
    from Suc.IH[OF this] show ?thesis using None s by (simp add: sanitize_nomatch)
  next
    case (Some n)
    with Suc.prems s show ?thesis by (simp add: sanitize_match)
  qed
qed

lemma match_bearer_block:
  assumes "r = [] \<or> is_space (hd r)"
  shows "match_bearer (''Bearer ***'' @ r) = Some 10"
proof -
  have star: "\<not> is_space CHR ''*''" by (simp add: is_space_def)
  have sp: "is_space CHR '' ''" by (simp add: is_space_def)
  have tk: "takeWhile (\<lambda>c. \<not> is_space c) r = []"
    using assms by (cases r) auto
  show ?thesis
    by (simp add: match_bearer_def Let_def bearer_word_literal star sp tk)
qed

text \<open>A match ends where the text ends or white space begins.\<close>

lemma match_bearer_rest:
  assumes "match_bearer s = Some n"
  shows "drop n s = [] \<or> is_space (hd (drop n s))"
proof -
  let ?r = "drop 6 s"
  let ?sp = "takeWhile is_space ?r"
  let ?tk = "takeWhile (\<lambda>c. \<not> is_space c) (dropWhile is_space ?r)"
  from assms have n: "n = 6 + length ?sp + length ?tk"
    by (auto simp: match_bearer_def Let_def split: if_splits)
  have "drop n s = drop (length ?tk) (drop (length ?sp) ?r)"
    by (simp add: n ac_simps)
  also have "drop (length ?sp) ?r = dropWhile is_space ?r"
    by (simp add: dropWhile_eq_drop)
  also have "drop (length ?tk) (dropWhile is_space ?r)
               = dropWhile (\<lambda>c. \<not> is_space c) (dropWhile is_space ?r)"
    by (simp add: dropWhile_eq_drop)
  finally have "drop n s = dropWhile (\<lambda>c. \<not> is_space c) (dropWhile is_space ?r)" .
  then show ?thesis
    using hd_dropWhile[of "\<lambda>c. \<not> is_space c" "dropWhile is_space ?r"] by auto
qed

lemma hd_sanitize_space: "is_space (hd (sanitize (c # cs))) = is_space c"
proof (cases "match_bearer (c # cs)")
  case None
  then show ?thesis by (simp add: sanitize_nomatch)
next
  case (Some n)
  from match_bearer_head[OF Some] show ?thesis
    by (auto simp: sanitize_match[OF Some] is_space_def)
qed

lemma takeWhile_space_sanitize: "takeWhile is_space (sanitize s) = takeWhile is_space s"
proof (induction s)
  case Nil
  then show ?case by (simp add: sanitize_Nil)
next
  case (Cons c cs)
  show ?case
  proof (cases "is_space c")
    case True
    then show ?thesis using Cons by (simp add: match_bearer_space sanitize_nomatch)
  next
    case False
    then have "\<not> is_space (hd (sanitize (c # cs)))" by (simp add: hd_sanitize_space)
    then have "takeWhile is_space (sanitize (c # cs)) = []"
      by (cases "sanitize (c # cs)") auto
    then show ?thesis using False by simp
  qed
qed

lemma dropWhile_space_sanitize: "dropWhile is_space (sanitize s) = sanitize (dropWhile is_space s)"
proof (induction s)
  case Nil
  then show ?case by (simp add: sanitize_Nil)
next
  case (Cons c cs)
  show ?case
  proof (cases "is_space c")
    case True
    then show ?thesis using Cons by (simp add: match_bearer_space sanitize_nomatch)
  next
    case False
    then have "\<not> is_space (hd (sanitize (c # cs)))" by (simp add: hd_sanitize_space)
    moreover have "sanitize (c # cs) \<noteq> []" by (simp add: sanitize_Nil_iff)
    ultimately have "dropWhile is_space (sanitize (c # cs)) = sanitize (c # cs)"
      by (cases "sanitize (c # cs)") auto
    then show ?thesis using False by simp
  qed
qed

lemma sanitize_keeps_space_head:
  assumes "r = [] \<or> is_space (hd r)"
  shows "sanitize r = [] \<or> is_space (hd (sanitize r))"
  using assms by (cases r) (auto simp: hd_sanitize_space sanitize_Nil)

text \<open>At its head the output matches exactly when the input does, and then on the literal.\<close>

lemma match_bearer_sanitize_Some:
  assumes "match_bearer s = Some n"
  shows "match_bearer (sanitize s) = Some 10"
proof -
  have "sanitize s = ''Bearer ***'' @ sanitize (drop n s)"
    by (rule sanitize_match[OF assms])
  moreover have "sanitize (drop n s) = [] \<or> is_space (hd (sanitize (drop n s)))"
    by (rule sanitize_keeps_space_head[OF match_bearer_rest[OF assms]])
  ultimately show ?thesis
    by (simp only: match_bearer_block)
qed

lemma match_bearer_sanitize_None:
  assumes "match_bearer s = None"
  shows "match_bearer (sanitize s) = None"
proof (rule ccontr)
  assume "match_bearer (sanitize s) \<noteq> None"
  then obtain m where m: "match_bearer (sanitize s) = Some m" by auto
  then obtain c cs where s: "s = c # cs"
    by (cases s) (auto simp: sanitize_Nil match_bearer_Nil)
  let ?o = "sanitize cs"
  have out: "sanitize s = c # ?o" using assms s by (simp add: sanitize_nomatch)
  from m out have w: "is_bearer_word (take 6 (c # ?o))"
    and sp: "takeWhile is_space (drop 6 (c # ?o)) \<noteq> []"
    and tk: "takeWhile (\<lambda>c. \<not> is_space c) (dropWhile is_space (drop 6 (c # ?o))) \<noteq> []"
    by (auto simp: match_bearer_def Let_def split: if_splits)
  from bearer_word_shape(1)[OF w] have len: "5 \<le> length ?o" by simp
  from bearer_word_shape(3)[OF w] have noB: "CHR ''B'' \<notin> set (take 5 ?o)" by simp
  from sanitize_copy[OF len noB]
  have t5: "take 5 cs = take 5 ?o" and d5: "drop 5 ?o = sanitize (drop 5 cs)" by auto
  have w': "is_bearer_word (take 6 s)" using w t5 s by simp
  let ?r = "drop 5 cs"
  have r: "drop 6 s = ?r" "drop 6 (c # ?o) = sanitize ?r" using s d5 by simp_all
  have sp': "takeWhile is_space ?r \<noteq> []"
    using sp r by (simp add: takeWhile_space_sanitize)
  from tk r have "sanitize (dropWhile is_space ?r) \<noteq> []"
    by (auto simp: dropWhile_space_sanitize)
  then have ne: "dropWhile is_space ?r \<noteq> []" by (simp add: sanitize_Nil_iff)
  then have "\<not> is_space (hd (dropWhile is_space ?r))" using hd_dropWhile by blast
  with ne have tk': "takeWhile (\<lambda>c. \<not> is_space c) (dropWhile is_space ?r) \<noteq> []"
    by (cases "dropWhile is_space ?r") auto
  from w' sp' tk' r have "match_bearer s \<noteq> None"
    by (simp add: match_bearer_def Let_def)
  with assms show False by simp
qed

lemma sanitize_idem: "sanitize (sanitize s) = sanitize s"
proof (induction s rule: sanitize.induct)
  case 1
  then show ?case by (simp add: sanitize_Nil)
next
  case (2 c cs)
  show ?case
  proof (cases "match_bearer (c # cs)")
    case None
    have "match_bearer (c # sanitize cs) = None"
      using match_bearer_sanitize_None[OF None] None by (simp add: sanitize_nomatch)
    then show ?thesis using None 2(1)[OF None] by (simp add: sanitize_nomatch)
  next
    case (Some n)
    let ?r = "sanitize (drop n (c # cs))"
    have sh: "?r = [] \<or> is_space (hd ?r)"
      by (rule sanitize_keeps_space_head[OF match_bearer_rest[OF Some]])
    have "sanitize (''Bearer ***'' @ ?r) = ''Bearer ***'' @ sanitize (drop 10 (''Bearer ***'' @ ?r))"
      by (rule sanitize_match[OF match_bearer_block[OF sh]])
    then show ?thesis using 2(2)[OF Some] by (simp add: sanitize_match[OF Some])
  qed
qed

lemma no_match_inside_block:
  assumes "0 < i" "i < 10"
  shows "match_bearer (drop i (''Bearer ***'' @ r)) = None"
proof -
  from assms have "i = 1 \<or> i = 2 \<or> i = 3 \<or> i = 4 \<or> i = 5 \<or> i = 6 \<or> i = 7 \<or> i = 8 \<or> i = 9"
    by arith
  then obtain c cs where d: "drop i (''Bearer ***'' @ r) = c # cs"
    and c: "c \<noteq> CHR ''B''" "c \<noteq> CHR ''b''"
    by (elim disjE) simp_all
  show ?thesis
    using match_bearer_head[of c cs] c unfolding d by (cases "match_bearer (c # cs)") auto
qed

text \<open>Every match in the output is on the literal \<^verbatim>\<open>Bearer ***\<close>.\<close>

lemma sanitize_occurrences:
  "match_bearer (drop i (sanitize s)) = Some n \<Longrightarrow>
   n = 10 \<and> take 10 (drop i (sanitize s)) = ''Bearer ***''"
proof (induction s arbitrary: i rule: sanitize.induct)
  case 1
  then show ?case by (simp add: sanitize_Nil match_bearer_Nil)
next
  case (2 c cs)
  show ?case
  proof (cases "match_bearer (c # cs)")
    case None
    then have out: "sanitize (c # cs) = c # sanitize cs" by (rule sanitize_nomatch)
    show ?thesis
    proof (cases i)
      case 0
      with "2.prems" match_bearer_sanitize_None[OF None] show ?thesis by simp
    next
      case (Suc j)
      with "2.prems" out have "match_bearer (drop j (sanitize cs)) = Some n" by simp
      from "2.IH"(1)[OF None this] show ?thesis using Suc out by simp
    qed
  next
    case (Some n0)
    let ?r = "sanitize (drop n0 (c # cs))"
    have out: "sanitize (c # cs) = ''Bearer ***'' @ ?r" by (rule sanitize_match[OF Some])
    have sh: "?r = [] \<or> is_space (hd ?r)"
      by (rule sanitize_keeps_space_head[OF match_bearer_rest[OF Some]])
    consider "i = 0" | "0 < i" "i < 10" | "10 \<le> i" by arith
    then show ?thesis
    proof cases
      case 1
      with "2.prems" match_bearer_block[OF sh] show ?thesis by (simp add: out)
    next
      case 2
      from no_match_inside_block[OF 2, of ?r] "2.prems" show ?thesis by (simp only: out) simp
    next
      case 3
      then obtain j where j: "i = j + 10" by (metis le_add_diff_inverse2)
      have d: "drop i (''Bearer ***'' @ ?r) = drop j ?r"
        unfolding j by (simp add: drop_Cons')
      with "2.prems" have "match_bearer (drop j ?r) = Some n" by (simp only: out)
      from "2.IH"(2)[OF Some this] show ?thesis by (simp only: out d)
    qed
  qed
qed

lemma sanitize_clean:
  "(\<And>i. match_bearer (drop i s) = None) \<Longrightarrow> sanitize s = s"
proof (induction s)
  case Nil
  then show ?case by (simp add: sanitize_Nil)
next
  case (Cons c cs)
  from Cons.prems[of 0] have "sanitize (c # cs) = c # sanitize cs" by (simp add: sanitize_nomatch)
  moreover have "sanitize cs = cs"
  proof (rule Cons.IH)
    fix i show "match_bearer (drop i cs) = None" using Cons.prems[of "Suc i"] by simp
  qed
  ultimately show ?case by simp
qed

lemma sanitize_first_occurrence:
  "(\<And>i. i < k \<Longrightarrow> match_bearer (drop i s) = None) \<Longrightarrow> match_bearer (drop k s) = Some n \<Longrightarrow>
   sanitize s = take k s @ ''Bearer ***'' @ sanitize (drop (k + n) s)"
proof (induction k arbitrary: s)
  case 0
  then show ?case by (simp add: sanitize_match)
next
  case (Suc k)
  from Suc.prems(2) obtain c cs where s: "s = c # cs"
    by (cases s) (auto simp: match_bearer_Nil)
  from Suc.prems(1)[of 0] s have "sanitize s = c # sanitize cs" by (simp add: sanitize_nomatch)
  moreover have "sanitize cs = take k cs @ ''Bearer ***'' @ sanitize (drop (k + n) cs)"
  proof (rule Suc.IH)
    fix i assume "i < k"
    then show "match_bearer (drop i cs) = None" using Suc.prems(1)[of "Suc i"] s by simp
  next
    show "match_bearer (drop k cs) = Some n" using Suc.prems(2) s by simp
  qed
  ultimately show ?case using s by simp
qed

text \<open>
  What a match is, in the words of the pattern: the word in either case, a run of white
  space, a run of other characters, each run as long as it can be.
\<close>

lemma match_bearer_iff:
  "match_bearer s = Some n \<longleftrightarrow>
     (\<exists>w sp tok rest. s = w @ sp @ tok @ rest \<and> is_bearer_word w \<and>
        sp \<noteq> [] \<and> list_all is_space sp \<and> tok \<noteq> [] \<and> list_all (\<lambda>c. \<not> is_space c) tok \<and>
        (rest = [] \<or> is_space (hd rest)) \<and> n = length (w @ sp @ tok))"
  (is "?L \<longleftrightarrow> ?R")
proof
  assume L: ?L
  let ?r = "drop 6 s"
  let ?sp = "takeWhile is_space ?r"
  let ?d = "dropWhile is_space ?r"
  let ?tk = "takeWhile (\<lambda>c. \<not> is_space c) ?d"
  let ?rest = "dropWhile (\<lambda>c. \<not> is_space c) ?d"
  from L have w: "is_bearer_word (take 6 s)" and sp: "?sp \<noteq> []" and tk: "?tk \<noteq> []"
    and n: "n = 6 + length ?sp + length ?tk"
    by (auto simp: match_bearer_def Let_def split: if_splits)
  have "s = take 6 s @ ?r" by simp
  also have "?r = ?sp @ ?d" by simp
  also have "?d = ?tk @ ?rest" by simp
  finally have s: "s = take 6 s @ ?sp @ ?tk @ ?rest" .
  have rest: "?rest = [] \<or> is_space (hd ?rest)"
    using hd_dropWhile[of "\<lambda>c. \<not> is_space c" ?d] by auto
  have "list_all is_space ?sp" "list_all (\<lambda>c. \<not> is_space c) ?tk"
    by (auto simp: list_all_iff dest: set_takeWhileD)
  with s w sp tk rest n bearer_word_shape(1)[OF w] show ?R
    by (intro exI[of _ "take 6 s"] exI[of _ ?sp] exI[of _ ?tk] exI[of _ ?rest]) simp
next
  assume ?R
  then obtain w sp tok rest where s: "s = w @ sp @ tok @ rest" and w: "is_bearer_word w"
    and sp: "sp \<noteq> []" "list_all is_space sp"
    and tok: "tok \<noteq> []" "list_all (\<lambda>c. \<not> is_space c) tok"
    and rest: "rest = [] \<or> is_space (hd rest)" and n: "n = length (w @ sp @ tok)"
    by blast
  have lw: "length w = 6" by (rule bearer_word_shape(1)[OF w])
  have t6: "take 6 s = w" "drop 6 s = sp @ tok @ rest" using s lw by simp_all
  have hdtok: "\<not> is_space (hd tok)" using tok by (cases tok) auto
  have a: "takeWhile is_space (sp @ tok @ rest) = sp"
    using sp(2) tok(1) hdtok by (cases tok) (auto simp: list_all_iff takeWhile_append2)
  have b: "dropWhile is_space (sp @ tok @ rest) = tok @ rest"
    using sp(2) tok(1) hdtok by (cases tok) (auto simp: list_all_iff dropWhile_append2)
  have c: "takeWhile (\<lambda>c. \<not> is_space c) (tok @ rest) = tok"
    using tok(2) rest by (cases rest) (auto simp: list_all_iff takeWhile_append2)
  show ?L
    using w sp(1) tok(1) by (simp add: match_bearer_def Let_def t6 a b c n lw)
qed

text \<open>
  C9. Scanning from the left and resuming after each match, the sanitizer replaces every
  match of the pattern by \<^verbatim>\<open>Bearer ***\<close>: the text before the first match is kept, the match
  is replaced, and the text after it is sanitized in the same way. Sanitizing is idempotent,
  a text in which the pattern matches nowhere is returned unchanged, and every match of the
  pattern in a sanitized text is on the literal \<^verbatim>\<open>Bearer ***\<close>.
\<close>

theorem sanitize_contract:
  "((\<forall>i<k. match_bearer (drop i s) = None) \<and> match_bearer (drop k s) = Some n \<longrightarrow>
      sanitize s = take k s @ ''Bearer ***'' @ sanitize (drop (k + n) s)) \<and>
   sanitize (sanitize s) = sanitize s \<and>
   ((\<forall>i. match_bearer (drop i s) = None) \<longrightarrow> sanitize s = s) \<and>
   (match_bearer (drop j (sanitize s)) = Some m \<longrightarrow> take m (drop j (sanitize s)) = ''Bearer ***'')"
proof (intro conjI impI)
  assume "(\<forall>i<k. match_bearer (drop i s) = None) \<and> match_bearer (drop k s) = Some n"
  then show "sanitize s = take k s @ ''Bearer ***'' @ sanitize (drop (k + n) s)"
    using sanitize_first_occurrence[of k s n] by blast
next
  show "sanitize (sanitize s) = sanitize s" by (rule sanitize_idem)
next
  assume "\<forall>i. match_bearer (drop i s) = None"
  then show "sanitize s = s" using sanitize_clean[of s] by blast
next
  assume "match_bearer (drop j (sanitize s)) = Some m"
  from sanitize_occurrences[OF this] show "take m (drop j (sanitize s)) = ''Bearer ***''" by simp
qed

theorem sanitize_contract_witness:
  "sanitize ''Request failed with Bearer abc123 in header'' = ''Request failed with Bearer *** in header'' \<and>
   sanitize (sanitize ''Request failed with Bearer abc123 in header'')
     = sanitize ''Request failed with Bearer abc123 in header'' \<and>
   sanitize ''connection refused'' = ''connection refused'' \<and>
   take 10 (drop 20 (sanitize ''Request failed with Bearer abc123 in header'')) = ''Bearer ***''"
proof -
  let ?s = "''Request failed with Bearer abc123 in header''"
  let ?t = "''connection refused''"
  have "list_all (\<lambda>i. match_bearer (drop i ?s) = None) [0..<20]" by code_simp
  then have before: "\<forall>i<20. match_bearer (drop i ?s) = None" by (simp add: list_all_iff)
  have at: "match_bearer (drop 20 ?s) = Some 13" by code_simp
  have after: "sanitize (drop (20 + 13) ?s) = '' in header''" by code_simp
  have "list_all (\<lambda>i. match_bearer (drop i ?t) = None) [0..<18]" by code_simp
  then have "\<forall>i<18. match_bearer (drop i ?t) = None" by (simp add: list_all_iff)
  moreover have "\<forall>i\<ge>18. match_bearer (drop i ?t) = None" by (simp add: match_bearer_Nil)
  ultimately have clean: "\<forall>i. match_bearer (drop i ?t) = None" by (meson not_le)
  have out: "sanitize ?s = ''Request failed with Bearer *** in header''"
    using sanitize_contract[of 20 ?s 13 20 10] before at after by simp
  have "match_bearer (drop 20 (sanitize ?s)) = Some 10" unfolding out by code_simp
  with sanitize_contract[of 20 ?s 13 20 10] sanitize_contract[of 0 ?t 0 0 0] clean out
  show ?thesis by simp
qed

text \<open>
  The message of a fault that \<^verbatim>\<open>run\<close> catches is surfaced sanitized: every match of the
  pattern in it is on the literal.
\<close>

lemma caught_fault_is_sanitized:
  assumes "run_try rt env = (Some err, out)"
  shows "run rt env = out @ [SetFailed (sanitize (message err))]"
    and "match_bearer (drop i (sanitize (message err))) = Some n \<Longrightarrow>
         take n (drop i (sanitize (message err))) = ''Bearer ***''"
  using assms sanitize_occurrences[of i "message err" n] by (simp_all add: run_def)

section \<open>Chunk boundaries\<close>

lemma join_lines_append: "join_lines (ls @ ms) rest = join_lines ls (join_lines ms rest)"
  by (simp add: join_lines_def)

text \<open>
  Framing is associative: the complete lines of two chunks in a row are the complete lines
  of the first, then those of the first's carry-over followed by the second.
\<close>

lemma framing_associative:
  "complete_lines (c1 @ c2) = complete_lines c1 @ complete_lines (carry_over c1 @ c2)"
  "carry_over (c1 @ c2) = carry_over (carry_over c1 @ c2)"
proof -
  let ?l1 = "complete_lines c1" and ?f1 = "carry_over c1"
  let ?l2 = "complete_lines (carry_over c1 @ c2)" and ?f2 = "carry_over (carry_over c1 @ c2)"
  have j1: "join_lines ?l1 ?f1 = c1" by (rule framing_parts(1))
  have j2: "join_lines ?l2 ?f2 = ?f1 @ c2" by (rule framing_parts(1))
  have n1: "newline \<notin> set (concat ?l1)" by (rule framing_parts(3))
  have n2: "newline \<notin> set (concat ?l2)" by (rule framing_parts(3))
  have nf: "newline \<notin> set ?f2" by (rule framing_parts(2))
  have "join_lines (?l1 @ ?l2) ?f2 = join_lines ?l1 (join_lines ?l2 ?f2)"
    by (rule join_lines_append)
  also have "\<dots> = join_lines ?l1 (?f1 @ c2)" by (simp only: j2)
  also have "\<dots> = join_lines ?l1 ?f1 @ c2" by (simp add: join_lines_def)
  also have "\<dots> = c1 @ c2" by (simp only: j1)
  finally have j: "join_lines (?l1 @ ?l2) ?f2 = c1 @ c2" .
  from n1 n2 have n: "newline \<notin> set (concat (?l1 @ ?l2))" by simp
  show "complete_lines (c1 @ c2) = ?l1 @ ?l2"
    by (rule framing_unique(1)[OF nf n, unfolded j])
  show "carry_over (c1 @ c2) = ?f2"
    by (rule framing_unique(2)[OF nf n, unfolded j])
qed

lemma decode_append:
  "decode pending (ls @ ms) = decode pending ls @ decode (pending_after pending ls) ms"
  by (induction ls arbitrary: pending) auto

text \<open>
  So the events of two chunks in a row are those of the first chunk followed by those of
  the rest, decoded from the pending type that the first chunk leaves. \<open>parseSSELines\<close>
  decodes the rest from the empty type instead: a boundary is harmless where the pending
  type is empty, and changes the type of the next event where it is not.
\<close>

lemma events_across_boundary:
  "decode [] (complete_lines (c1 @ c2))
     = decode [] (complete_lines c1)
       @ decode (pending_after [] (complete_lines c1)) (complete_lines (carry_over c1 @ c2))"
  by (subst framing_associative(1)) (rule decode_append)

lemma boundary_without_pending_type:
  "pending_after [] (complete_lines c1) = [] \<Longrightarrow>
   decode [] (complete_lines (c1 @ c2))
     = decode [] (complete_lines c1) @ decode [] (complete_lines (carry_over c1 @ c2))"
  using events_across_boundary[of c1 c2] by simp

section \<open>Where the code departs from the claims\<close>

text \<open>
  C5: a payload that is the JSON value \<^verbatim>\<open>null\<close> parses, and reading a field of it throws. The
  fault leaves \<open>processSSEEvent\<close>, \<open>parseSSELines\<close> and \<open>streamTaskOutput\<close>; for an \<^verbatim>\<open>error\<close>
  event it is thrown after the status has been assigned.
\<close>

theorem null_payload_throws:
  "processSSEEvent sample_runtime ''stdout'' ''null'' initial_state
     = (initial_state, [],
        Some (Fault True ''TypeError''
               (''Cannot read properties of null (reading '' @ [CHR 0x27] @ ''data'' @ [CHR 0x27] @ '')''))) \<and>
   streamTaskOutput sample_runtime (sample_fetch [''event: stdout\<newline>data: null\<newline>\<newline>''])
      ''https://api.test/stream'' ''test-key'' 100
     = (Inl (Fault True ''TypeError''
               (''Cannot read properties of null (reading '' @ [CHR 0x27] @ ''data'' @ [CHR 0x27] @ '')'')), []) \<and>
   processSSEEvent sample_runtime ''error'' ''null'' initial_state
     = (\<lparr>outputBuffer = [], status = ''failed'', error = JNull, costUsd = None\<rparr>, [],
        Some (Fault True ''TypeError''
               (''Cannot read properties of null (reading '' @ [CHR 0x27] @ ''error'' @ [CHR 0x27] @ '')'')))"
  by (simp add: streamTaskOutput_def streamTaskOutput_try_def sample_fetch_def read_body_def eval_defs)

text \<open>
  C7: a buffer in which a \<^verbatim>\<open>data: \<close> line carries the payload \<^verbatim>\<open>null\<close>. Its complete lines
  decode to two events and its carry-over is \<^verbatim>\<open>tail\<close>, but the dispatch of the first event
  throws (the defect of C5), so \<open>parseSSELines\<close> ends in that fault: the second
  \<^verbatim>\<open>data: \<close> line is never dispatched and no carry-over is returned.
\<close>

theorem fault_ends_parseSSELines:
  \<open>complete_lines ''event:  stdout \<newline>data: null\<newline>data: {"data":"hello"}\<newline>tail''
     = [''event:  stdout '', ''data: null'', ''data: {"data":"hello"}''] \<and>
   carry_over ''event:  stdout \<newline>data: null\<newline>data: {"data":"hello"}\<newline>tail'' = ''tail'' \<and>
   decode [] [''event:  stdout '', ''data: null'', ''data: {"data":"hello"}'']
     = [(''stdout'', ''null''), ([], ''{"data":"hello"}'')] \<and>
   parseSSELines sample_runtime
      ''event:  stdout \<newline>data: null\<newline>data: {"data":"hello"}\<newline>tail'' initial_state
     = (initial_state, [],
        Inl (Fault True ''TypeError''
              (''Cannot read properties of null (reading '' @ [CHR 0x27] @ ''data'' @ [CHR 0x27] @ '')'')))\<close>
  by (simp add: complete_lines_def carry_over_def eval_defs)

text \<open>
  C1: the same text delivered whole and delivered with a chunk boundary between the
  \<^verbatim>\<open>event: \<close> line and its \<^verbatim>\<open>data: \<close> line ends in different states: the split stream loses
  the event.
\<close>

theorem chunk_boundary_loses_event:
  \<open>read_loop sample_runtime [Chunk ''event: stdout\<newline>data: {"data":"hello"}\<newline>''] [] initial_state
     = (\<lparr>outputBuffer = ''hello'', status = ''unknown'', error = JNull, costUsd = None\<rparr>,
        [Info ''hello''], None) \<and>
   read_loop sample_runtime [Chunk ''event: stdout\<newline>'', Chunk ''data: {"data":"hello"}\<newline>''] [] initial_state
     = (\<lparr>outputBuffer = [], status = ''unknown'', error = JNull, costUsd = None\<rparr>,
        [Debug ''Unknown event type: ''], None)\<close>
  by (simp add: eval_defs)

text \<open>
  C2: the failure message built from the result of the stream reaches the failure channel
  as it is, with the credential in it; the sanitizer is applied in the \<^verbatim>\<open>catch\<close> handler only.
\<close>

theorem failed_result_not_sanitized:
  \<open>failures (run sample_runtime
      (sample_env [''event: error\<newline>data: {"error":"rejected Bearer abc123"}\<newline>\<newline>'']))
     = [''Task execution failed: rejected Bearer abc123''] \<and>
   sanitize ''Task execution failed: rejected Bearer abc123'' = ''Task execution failed: rejected Bearer ***''\<close>
proof -
  have \<open>failures (run sample_runtime
      (sample_env [''event: error\<newline>data: {"error":"rejected Bearer abc123"}\<newline>\<newline>'']))
     = [''Task execution failed: rejected Bearer abc123'']\<close>
    by (simp add: run_def run_try_def follow_task_def report_result_def core_getInput_def sample_env_def
          streamTaskOutput_def streamTaskOutput_try_def sample_fetch_def read_body_def eval_defs)
  moreover have "sanitize ''Task execution failed: rejected Bearer abc123'' = ''Task execution failed: rejected Bearer ***''"
    by code_simp
  ultimately show ?thesis by simp
qed

end
